theory Spec2Isabelle
  imports Complex_Main
begin

section \<open>Numbers\<close>

text \<open>
  The synthesizer computes with JavaScript numbers.  The development reads them as
  real numbers: every arithmetic operation is exact, and the \<open>null\<close> fields of the
  source, read through \<open>Math.abs\<close> and \<open>+=\<close> as 0, are written out where the
  source has them.  Rounding, infinities and NaN are outside this reading: a quotient
  stated by a theorem below has a divisor that is not zero.
\<close>

section \<open>envelope\_generator.js\<close>

text \<open>The phases of an ADSD envelope (\<open>doodle.moog.EnvelopeGenerator.Phase_\<close>).\<close>

datatype Phase = ATTACK | DECAY | SUSTAIN | RELEASE | INACTIVE

text \<open>
  The fields of \<open>doodle.moog.EnvelopeGenerator\<close>; a field \<open>this.x_\<close> of the source
  is \<open>eg_x\<close> here.
\<close>

record EnvelopeGenerator =
  eg_SAMPLE_INTERVAL :: real
  eg_amplitudeCoefficient :: real
  eg_phase :: Phase
  eg_attackTime :: real
  eg_attackStep :: real
  eg_decayTime :: real
  eg_decayStep :: real
  eg_sustainLevel :: real
  eg_releaseStep :: real

text \<open>\<open>recomputePhaseSteps_\<close>: the three per-sample steps from the current parameters.\<close>

definition recomputePhaseSteps :: "EnvelopeGenerator \<Rightarrow> EnvelopeGenerator" where
  "recomputePhaseSteps e =
     (let e1 = (if eg_attackTime e \<le> 0
                then e\<lparr>eg_attackStep := 1\<rparr>
                else e\<lparr>eg_attackStep := eg_SAMPLE_INTERVAL e / eg_attackTime e\<rparr>)
      in if eg_decayTime e1 \<le> 0
         then e1\<lparr>eg_decayStep := 1, eg_releaseStep := 1\<rparr>
         else e1\<lparr>eg_decayStep :=
                    (1 - eg_sustainLevel e1) * eg_SAMPLE_INTERVAL e1 / eg_decayTime e1,
                  eg_releaseStep :=
                    eg_sustainLevel e1 * eg_SAMPLE_INTERVAL e1 / eg_decayTime e1\<rparr>)"

text \<open>
  The constructor.  The step fields are declared without a value in the source and
  assigned by the call of \<open>recomputePhaseSteps_\<close> that ends the constructor; the
  zeros below are overwritten by it.
\<close>

definition newEnvelopeGenerator :: "real \<Rightarrow> real \<Rightarrow> real \<Rightarrow> real \<Rightarrow> EnvelopeGenerator" where
  "newEnvelopeGenerator sampleInterval attackTime decayTime sustainLevel =
     recomputePhaseSteps
       \<lparr>eg_SAMPLE_INTERVAL = sampleInterval,
        eg_amplitudeCoefficient = 0,
        eg_phase = INACTIVE,
        eg_attackTime = attackTime,
        eg_attackStep = 0,
        eg_decayTime = decayTime,
        eg_decayStep = 0,
        eg_sustainLevel = sustainLevel,
        eg_releaseStep = 0\<rparr>"

definition startAttack :: "EnvelopeGenerator \<Rightarrow> EnvelopeGenerator" where
  "startAttack e = (recomputePhaseSteps e)\<lparr>eg_amplitudeCoefficient := 0, eg_phase := ATTACK\<rparr>"

definition startRelease :: "EnvelopeGenerator \<Rightarrow> EnvelopeGenerator" where
  "startRelease e =
     (if eg_phase e = RELEASE then e
      else (if eg_decayTime e \<le> 0
            then e\<lparr>eg_releaseStep := 1\<rparr>
            else e\<lparr>eg_releaseStep :=
                     eg_amplitudeCoefficient e * eg_SAMPLE_INTERVAL e / eg_decayTime e\<rparr>)
           \<lparr>eg_phase := RELEASE\<rparr>)"

text \<open>
  \<open>getNextAmplitudeCoefficient\<close> updates the envelope and returns the new
  \<open>amplitudeCoefficient_\<close>: \<open>advanceEnvelope\<close> is the update,
  \<open>getNextAmplitudeCoefficient\<close> pairs the returned number with it.
\<close>

definition advanceEnvelope :: "EnvelopeGenerator \<Rightarrow> EnvelopeGenerator" where
  "advanceEnvelope e =
     (case eg_phase e of
        ATTACK \<Rightarrow>
          (let a = eg_amplitudeCoefficient e + eg_attackStep e
           in if a \<ge> 1 then e\<lparr>eg_amplitudeCoefficient := 1, eg_phase := DECAY\<rparr>
              else e\<lparr>eg_amplitudeCoefficient := a\<rparr>)
      | DECAY \<Rightarrow>
          (let a = eg_amplitudeCoefficient e - eg_decayStep e
           in if a \<le> eg_sustainLevel e
              then e\<lparr>eg_amplitudeCoefficient := eg_sustainLevel e, eg_phase := SUSTAIN\<rparr>
              else e\<lparr>eg_amplitudeCoefficient := a\<rparr>)
      | SUSTAIN \<Rightarrow> e
      | RELEASE \<Rightarrow>
          (let a = eg_amplitudeCoefficient e - eg_releaseStep e
           in if a \<le> 0 then e\<lparr>eg_amplitudeCoefficient := 0, eg_phase := INACTIVE\<rparr>
              else e\<lparr>eg_amplitudeCoefficient := a\<rparr>)
      | INACTIVE \<Rightarrow> e)"

definition getNextAmplitudeCoefficient :: "EnvelopeGenerator \<Rightarrow> real \<times> EnvelopeGenerator" where
  "getNextAmplitudeCoefficient e =
     (let e' = advanceEnvelope e in (eg_amplitudeCoefficient e', e'))"

definition setAttackTime :: "real \<Rightarrow> EnvelopeGenerator \<Rightarrow> EnvelopeGenerator" where
  "setAttackTime time e = recomputePhaseSteps (e\<lparr>eg_attackTime := time\<rparr>)"

definition setDecayTime :: "real \<Rightarrow> EnvelopeGenerator \<Rightarrow> EnvelopeGenerator" where
  "setDecayTime time e = recomputePhaseSteps (e\<lparr>eg_decayTime := time\<rparr>)"

definition setSustainLevel :: "real \<Rightarrow> EnvelopeGenerator \<Rightarrow> EnvelopeGenerator" where
  "setSustainLevel level e = recomputePhaseSteps (e\<lparr>eg_sustainLevel := level\<rparr>)"

text \<open>
  \<open>samples n e\<close> is the envelope after \<open>n\<close> calls of \<open>getNextAmplitudeCoefficient\<close>,
  and \<open>coefficients n e\<close> the \<open>n\<close> numbers those calls return, in order.
\<close>

fun samples :: "nat \<Rightarrow> EnvelopeGenerator \<Rightarrow> EnvelopeGenerator" where
  "samples 0 e = e"
| "samples (Suc n) e = samples n (snd (getNextAmplitudeCoefficient e))"

fun coefficients :: "nat \<Rightarrow> EnvelopeGenerator \<Rightarrow> real list" where
  "coefficients 0 e = []"
| "coefficients (Suc n) e =
     (let (a, e') = getNextAmplitudeCoefficient e in a # coefficients n e')"

text \<open>
  One call on the public interface of an envelope, and a sequence of such calls
  applied from left to right.  \<open>validCall\<close> is the documented range of the one
  argument that has one: \<open>setSustainLevel\<close> takes a level in [0, 1].
\<close>

datatype EnvelopeCall =
    StartAttack
  | StartRelease
  | GetNextAmplitudeCoefficient
  | SetAttackTime real
  | SetDecayTime real
  | SetSustainLevel real

fun envelopeCall :: "EnvelopeCall \<Rightarrow> EnvelopeGenerator \<Rightarrow> EnvelopeGenerator" where
  "envelopeCall StartAttack e = startAttack e"
| "envelopeCall StartRelease e = startRelease e"
| "envelopeCall GetNextAmplitudeCoefficient e = snd (getNextAmplitudeCoefficient e)"
| "envelopeCall (SetAttackTime t) e = setAttackTime t e"
| "envelopeCall (SetDecayTime t) e = setDecayTime t e"
| "envelopeCall (SetSustainLevel l) e = setSustainLevel l e"

fun envelopeCalls :: "EnvelopeCall list \<Rightarrow> EnvelopeGenerator \<Rightarrow> EnvelopeGenerator" where
  "envelopeCalls [] e = e"
| "envelopeCalls (c # cs) e = envelopeCalls cs (envelopeCall c e)"

fun validCall :: "EnvelopeCall \<Rightarrow> bool" where
  "validCall (SetSustainLevel l) = (0 \<le> l \<and> l \<le> 1)"
| "validCall _ = True"

text \<open>
  The divisions of the envelope with the divisor checked: \<open>checkedDiv\<close> has no
  result when the divisor is zero or negative, and the two functions that divide,
  \<open>recomputePhaseSteps_\<close> and \<open>startRelease\<close>, are repeated over it, branch by
  branch, with no result as soon as one of their divisions has none.
\<close>

definition checkedDiv :: "real \<Rightarrow> real \<Rightarrow> real option" where
  "checkedDiv x y = (if y \<le> 0 then None else Some (x / y))"

definition recomputePhaseStepsChecked :: "EnvelopeGenerator \<Rightarrow> EnvelopeGenerator option" where
  "recomputePhaseStepsChecked e =
     (case (if eg_attackTime e \<le> 0 then Some 1
            else checkedDiv (eg_SAMPLE_INTERVAL e) (eg_attackTime e)) of
        None \<Rightarrow> None
      | Some a \<Rightarrow>
          (let e1 = e\<lparr>eg_attackStep := a\<rparr>
           in if eg_decayTime e1 \<le> 0
              then Some (e1\<lparr>eg_decayStep := 1, eg_releaseStep := 1\<rparr>)
              else (case checkedDiv ((1 - eg_sustainLevel e1) * eg_SAMPLE_INTERVAL e1)
                                    (eg_decayTime e1) of
                      None \<Rightarrow> None
                    | Some d \<Rightarrow>
                        (case checkedDiv (eg_sustainLevel e1 * eg_SAMPLE_INTERVAL e1)
                                         (eg_decayTime e1) of
                           None \<Rightarrow> None
                         | Some r \<Rightarrow> Some (e1\<lparr>eg_decayStep := d, eg_releaseStep := r\<rparr>)))))"

definition startReleaseChecked :: "EnvelopeGenerator \<Rightarrow> EnvelopeGenerator option" where
  "startReleaseChecked e =
     (if eg_phase e = RELEASE then Some e
      else (case (if eg_decayTime e \<le> 0 then Some 1
                  else checkedDiv (eg_amplitudeCoefficient e * eg_SAMPLE_INTERVAL e)
                                  (eg_decayTime e)) of
              None \<Rightarrow> None
            | Some r \<Rightarrow> Some (e\<lparr>eg_releaseStep := r, eg_phase := RELEASE\<rparr>)))"

text \<open>
  What every envelope with a non-negative sample interval and sustain levels in [0, 1]
  satisfies between calls: the coefficient is in [0, 1], no step is negative, and a
  time that is zero or negative has its steps at 1.
\<close>
definition envelopeInvariant :: "EnvelopeGenerator \<Rightarrow> bool" where
  "envelopeInvariant e \<longleftrightarrow>
     0 \<le> eg_SAMPLE_INTERVAL e
     \<and> 0 \<le> eg_sustainLevel e \<and> eg_sustainLevel e \<le> 1
     \<and> 0 \<le> eg_amplitudeCoefficient e \<and> eg_amplitudeCoefficient e \<le> 1
     \<and> 0 \<le> eg_attackStep e \<and> 0 \<le> eg_decayStep e \<and> 0 \<le> eg_releaseStep e
     \<and> (eg_attackTime e \<le> 0 \<longrightarrow> eg_attackStep e = 1)
     \<and> (eg_decayTime e \<le> 0 \<longrightarrow> eg_decayStep e = 1 \<and> eg_releaseStep e = 1)"

section \<open>oscillator.js\<close>

text \<open>
  The enumerations of \<open>doodle.moog.OscillatorInterface\<close> that the oscillator
  switches on.  A range is the number the source multiplies the base frequency by.
\<close>

datatype WaveForm = TRIANGLE | SAWANGLE | RAMP | REVERSE_RAMP | SQUARE | FAT_PULSE | PULSE

datatype FillMode = CLOBBER | ADD | MIX

text \<open>
  The fields of \<open>doodle.moog.Oscillator\<close>; a field \<open>this.x_\<close> of the source is
  \<open>osc_x\<close> here.  The three glide fields and the modulator buffer are \<open>null\<close>
  until first used: \<open>None\<close>.  A \<open>Float32Array\<close> is the list of its samples.
\<close>

record Oscillator =
  osc_SAMPLE_INTERVAL :: real
  osc_phase :: real
  osc_volume :: real
  osc_waveForm :: WaveForm
  osc_range :: real
  osc_pitchBend :: real
  osc_isAcceptingKeyboardPitch :: bool
  osc_isFrequencyModulationOn :: bool
  osc_IS_MODULATOR :: bool
  osc_modulatorLevel :: real
  osc_modulatorSignal :: "real list option"
  osc_isGlideOn :: bool
  osc_glideDuration :: real
  osc_glideDelta :: "real option"
  osc_currentGlidePitch :: "real option"
  osc_targetGlidePitch :: "real option"
  osc_activeNote :: real
  osc_envelopeGenerator :: EnvelopeGenerator

text \<open>
  The constructor.  \<open>sampleRate\<close> is \<open>audioContext.sampleRate\<close>, the one property
  of the audio context the oscillator reads.
\<close>

definition newOscillator ::
  "real \<Rightarrow> real \<Rightarrow> WaveForm \<Rightarrow> real \<Rightarrow> real \<Rightarrow> bool \<Rightarrow> bool \<Rightarrow> bool \<Rightarrow> real \<Rightarrow> bool \<Rightarrow> real
     \<Rightarrow> real \<Rightarrow> real \<Rightarrow> real \<Rightarrow> Oscillator" where
  "newOscillator sampleRate volume waveForm range' pitchBend isAcceptingKeyboardPitch
       isFrequencyModulationOn isModulator modulatorLevel isGlideOn glideTime
       attackTime decayTime sustainLevel =
     \<lparr>osc_SAMPLE_INTERVAL = 1 / sampleRate,
      osc_phase = 0,
      osc_volume = volume,
      osc_waveForm = waveForm,
      osc_range = range',
      osc_pitchBend = pitchBend,
      osc_isAcceptingKeyboardPitch = isAcceptingKeyboardPitch,
      osc_isFrequencyModulationOn = isFrequencyModulationOn,
      osc_IS_MODULATOR = isModulator,
      osc_modulatorLevel = modulatorLevel,
      osc_modulatorSignal = None,
      osc_isGlideOn = isGlideOn,
      osc_glideDuration = glideTime,
      osc_glideDelta = None,
      osc_currentGlidePitch = None,
      osc_targetGlidePitch = None,
      osc_activeNote = 0,
      osc_envelopeGenerator =
        newEnvelopeGenerator (1 / sampleRate) attackTime decayTime sustainLevel\<rparr>"

definition BASE_FREQUENCY :: real where
  "BASE_FREQUENCY = 55"

definition MAJOR_SIXTH_FREQUENCY_RATIO :: real where
  "MAJOR_SIXTH_FREQUENCY_RATIO = 5 / 3"

definition THREE_OCTAVE_FREQUENCY_RATIO :: real where
  "THREE_OCTAVE_FREQUENCY_RATIO = 8"

definition NOTE_OFFSET :: real where
  "NOTE_OFFSET = - 4"

definition setActiveNote :: "real \<Rightarrow> Oscillator \<Rightarrow> Oscillator" where
  "setActiveNote note osc = osc\<lparr>osc_activeNote := note\<rparr>"

text \<open>\<open>Math.pow(2, x)\<close> is \<open>2 powr x\<close>.\<close>

definition getInstantaneousFrequency :: "Oscillator \<Rightarrow> real \<Rightarrow> real" where
  "getInstantaneousFrequency osc note =
     (let note' = (if \<not> osc_isAcceptingKeyboardPitch osc then 0 else note)
      in BASE_FREQUENCY * osc_range osc * 2 powr ((note' + NOTE_OFFSET) / 12))"

definition getPitchBend :: "Oscillator \<Rightarrow> real" where
  "getPitchBend osc =
     (let pitchBendScale =
            (if \<not> osc_isAcceptingKeyboardPitch osc then THREE_OCTAVE_FREQUENCY_RATIO
             else MAJOR_SIXTH_FREQUENCY_RATIO);
          normalizedPitchBend = \<bar>osc_pitchBend osc * (pitchBendScale - 1)\<bar> + 1
      in if osc_pitchBend osc \<ge> 0 then normalizedPitchBend else 1 / normalizedPitchBend)"

text \<open>
  A field that may be \<open>null\<close>, read as a number: \<open>Math.abs(null)\<close> is 0 and
  \<open>x += null\<close> adds 0.
\<close>

definition numberOf :: "real option \<Rightarrow> real" where
  "numberOf v = (case v of None \<Rightarrow> 0 | Some x \<Rightarrow> x)"

text \<open>
  \<open>getGlideFrequency_\<close> returns the frequency to play and updates the glide
  fields.  \<open>this.targetGlidePitch_ != target\<close> holds for a \<open>null\<close> field.
\<close>

definition getGlideFrequency :: "real \<Rightarrow> Oscillator \<Rightarrow> real \<times> Oscillator" where
  "getGlideFrequency target osc =
     (case osc_currentGlidePitch osc of
        None \<Rightarrow>
          (target, osc\<lparr>osc_currentGlidePitch := Some target, osc_targetGlidePitch := Some target\<rparr>)
      | Some current \<Rightarrow>
          if \<not> osc_isGlideOn osc \<or> osc_glideDuration osc \<le> 0
             \<or> \<bar>current - target\<bar> \<le> \<bar>numberOf (osc_glideDelta osc)\<bar>
          then (target,
                osc\<lparr>osc_currentGlidePitch := Some target, osc_targetGlidePitch := Some target\<rparr>)
          else
            (let osc1 =
                   (if osc_targetGlidePitch osc \<noteq> Some target
                    then (let glideDurationInSamples =
                                osc_glideDuration osc / osc_SAMPLE_INTERVAL osc
                          in osc\<lparr>osc_glideDelta :=
                                    Some ((target - current) / glideDurationInSamples),
                                  osc_targetGlidePitch := Some target\<rparr>)
                    else osc);
                 current' = current + numberOf (osc_glideDelta osc1)
             in (current', osc1\<lparr>osc_currentGlidePitch := Some current'\<rparr>)))"

text \<open>
  The test \<open>Math.abs(currentGlidePitch_ - target) <= Math.abs(glideDelta_)\<close> of
  \<open>getGlideFrequency_\<close> compares two rounded doubles, and when the two numbers
  are equal or nearly so the test is decided by their rounding.
  \<open>getGlideFrequencyBy le\<close> is \<open>getGlideFrequency_\<close> with that one comparison
  made by \<open>le\<close>; \<open>getGlideFrequency\<close> above is \<open>getGlideFrequencyBy (\<le>)\<close>.
\<close>

definition getGlideFrequencyBy ::
  "(real \<Rightarrow> real \<Rightarrow> bool) \<Rightarrow> real \<Rightarrow> Oscillator \<Rightarrow> real \<times> Oscillator" where
  "getGlideFrequencyBy le target osc =
     (case osc_currentGlidePitch osc of
        None \<Rightarrow>
          (target, osc\<lparr>osc_currentGlidePitch := Some target, osc_targetGlidePitch := Some target\<rparr>)
      | Some current \<Rightarrow>
          if \<not> osc_isGlideOn osc \<or> osc_glideDuration osc \<le> 0
             \<or> le \<bar>current - target\<bar> \<bar>numberOf (osc_glideDelta osc)\<bar>
          then (target,
                osc\<lparr>osc_currentGlidePitch := Some target, osc_targetGlidePitch := Some target\<rparr>)
          else
            (let osc1 =
                   (if osc_targetGlidePitch osc \<noteq> Some target
                    then (let glideDurationInSamples =
                                osc_glideDuration osc / osc_SAMPLE_INTERVAL osc
                          in osc\<lparr>osc_glideDelta :=
                                    Some ((target - current) / glideDurationInSamples),
                                  osc_targetGlidePitch := Some target\<rparr>)
                    else osc);
                 current' = current + numberOf (osc_glideDelta osc1)
             in (current', osc1\<lparr>osc_currentGlidePitch := Some current'\<rparr>)))"

text \<open>
  \<open>getModulationFrequency_\<close>.  The modulator buffer a synthesizer passes has one
  sample for each sample of the output buffer; a read past its end is \<open>undefined\<close>
  in the source and has no number here.
\<close>

definition getModulationFrequency :: "Oscillator \<Rightarrow> real \<Rightarrow> real list option \<Rightarrow> nat \<Rightarrow> real" where
  "getModulationFrequency osc baseFrequency modulatorSignal index =
     (case modulatorSignal of
        None \<Rightarrow> baseFrequency
      | Some signal \<Rightarrow>
          if \<not> osc_isFrequencyModulationOn osc then baseFrequency
          else (signal ! index * 0.75 + 1.25) * baseFrequency)"

definition advancedPhase :: "real \<Rightarrow> Oscillator \<Rightarrow> real \<times> Oscillator" where
  "advancedPhase frequency osc =
     (let cycleLengthInSeconds = 2 / frequency;
          osc1 = (if osc_phase osc > cycleLengthInSeconds
                  then osc\<lparr>osc_phase := osc_phase osc - cycleLengthInSeconds\<rparr>
                  else osc);
          progressInCycle = osc_phase osc1 * frequency / 2
      in (progressInCycle, osc1\<lparr>osc_phase := osc_phase osc1 + osc_SAMPLE_INTERVAL osc1\<rparr>))"

text \<open>The \<open>switch\<close> on the wave form inside \<open>fillAudioBuffer\<close>.\<close>

fun waveLevel :: "WaveForm \<Rightarrow> real \<Rightarrow> real" where
  "waveLevel TRIANGLE progressInCycle =
     4 * ((if progressInCycle > 0.5 then 1 - progressInCycle else progressInCycle) - 0.25)"
| "waveLevel SAWANGLE progressInCycle =
     (if progressInCycle < 0.5 then 4 * progressInCycle - 1 else - 2 * progressInCycle + 1)"
| "waveLevel RAMP progressInCycle = 2 * (progressInCycle - 0.5)"
| "waveLevel REVERSE_RAMP progressInCycle = - 2 * (progressInCycle - 0.5)"
| "waveLevel SQUARE progressInCycle = (if progressInCycle < 0.5 then 1 else - 1)"
| "waveLevel FAT_PULSE progressInCycle = (if progressInCycle < 1 / 3 then 1 else - 1)"
| "waveLevel PULSE progressInCycle = (if progressInCycle < 0.25 then 1 else - 1)"

text \<open>
  The output buffer of an audio process event: \<open>getChannelData(0)\<close>, and
  \<open>getChannelData(1)\<close> when the buffer has a second channel.  \<open>buffer.length\<close> is
  the length of channel 0.  Writing a typed array past its end changes nothing, as
  list update does.
\<close>

record AudioBuffer =
  channel0 :: "real list"
  channel1 :: "real list option"

text \<open>
  The frequency handed to \<open>advancedPhase_\<close> for sample \<open>i\<close>: the argument
  expression of that call in \<open>fillAudioBuffer\<close>, with the glide update it makes.
\<close>

definition sampleFrequency ::
  "real \<Rightarrow> real \<Rightarrow> real list option \<Rightarrow> nat \<Rightarrow> Oscillator \<Rightarrow> real \<times> Oscillator" where
  "sampleFrequency targetFrequency pitchBend modulatorSignal i osc =
     (let (glide, osc1) = getGlideFrequency targetFrequency osc
      in (pitchBend * getModulationFrequency osc1 glide modulatorSignal i, osc1))"

text \<open>
  The part of the loop body of \<open>fillAudioBuffer\<close> that works on the oscillator
  alone: it returns \<open>audioLevel\<close> and the oscillator after sample \<open>i\<close>.  The
  modulator buffer written here is there whenever \<open>IS_MODULATOR_\<close> holds:
  \<open>fillAudioBuffer\<close> allocates it before the loop.
\<close>

definition nextAudioLevel ::
  "real \<Rightarrow> real \<Rightarrow> real list option \<Rightarrow> nat \<Rightarrow> Oscillator \<Rightarrow> real \<times> Oscillator" where
  "nextAudioLevel targetFrequency pitchBend modulatorSignal i osc =
     (let (envelopeCoefficient, eg) = getNextAmplitudeCoefficient (osc_envelopeGenerator osc);
          osc1 = osc\<lparr>osc_envelopeGenerator := eg\<rparr>;
          (frequency, osc2) = sampleFrequency targetFrequency pitchBend modulatorSignal i osc1;
          (progressInCycle, osc3) = advancedPhase frequency osc2;
          level = waveLevel (osc_waveForm osc3) progressInCycle;
          osc4 = (if osc_IS_MODULATOR osc3
                  then osc3\<lparr>osc_modulatorSignal :=
                         map_option (\<lambda>signal. signal[i := level * osc_modulatorLevel osc3])
                           (osc_modulatorSignal osc3)\<rparr>
                  else osc3)
      in (level * osc_volume osc4 * envelopeCoefficient, osc4))"

text \<open>The part of the loop body that writes \<open>audioLevel\<close> into the buffer.\<close>

definition writeSample :: "FillMode \<Rightarrow> real \<Rightarrow> nat \<Rightarrow> real \<Rightarrow> AudioBuffer \<Rightarrow> AudioBuffer" where
  "writeSample fillMode opt_mixDivisor i audioLevel buffer =
     (let right = channel0 buffer
      in if fillMode = CLOBBER then buffer\<lparr>channel0 := right[i := audioLevel]\<rparr>
         else if fillMode = ADD then buffer\<lparr>channel0 := right[i := right ! i + audioLevel]\<rparr>
         else (let right' = right[i := (right ! i + audioLevel) / opt_mixDivisor]
               in buffer\<lparr>channel0 := right',
                        channel1 := map_option (\<lambda>left. left[i := right' ! i]) (channel1 buffer)\<rparr>))"

definition fillSample ::
  "real \<Rightarrow> real \<Rightarrow> real list option \<Rightarrow> FillMode \<Rightarrow> real \<Rightarrow> nat
     \<Rightarrow> Oscillator \<times> AudioBuffer \<Rightarrow> Oscillator \<times> AudioBuffer" where
  "fillSample targetFrequency pitchBend modulatorSignal fillMode opt_mixDivisor i state =
     (let (osc, buffer) = state;
          (audioLevel, osc') = nextAudioLevel targetFrequency pitchBend modulatorSignal i osc
      in (osc', writeSample fillMode opt_mixDivisor i audioLevel buffer))"

text \<open>
  \<open>fillAudioBuffer\<close>: the oscillator and the output buffer after the call.  The
  loop runs \<open>i\<close> from 0 to \<open>buffer.length - 1\<close>.
\<close>

definition fillAudioBuffer ::
  "AudioBuffer \<Rightarrow> real list option \<Rightarrow> FillMode \<Rightarrow> real \<Rightarrow> Oscillator
     \<Rightarrow> Oscillator \<times> AudioBuffer" where
  "fillAudioBuffer buffer modulatorSignal fillMode opt_mixDivisor osc =
     (let n = length (channel0 buffer);
          osc0 = (if osc_IS_MODULATOR osc \<and> osc_modulatorSignal osc = None
                  then osc\<lparr>osc_modulatorSignal := Some (replicate n 0)\<rparr>
                  else osc);
          targetFrequency = getInstantaneousFrequency osc0 (osc_activeNote osc0);
          pitchBend = getPitchBend osc0
      in fold (fillSample targetFrequency pitchBend modulatorSignal fillMode opt_mixDivisor)
           [0..<n] (osc0, buffer))"

text \<open>
  The \<open>audioLevel\<close> values of one call of \<open>fillAudioBuffer\<close>, read off the
  oscillator alone: \<open>oscillatorAfter \<dots> k\<close> is the oscillator after the loop
  body has run for the samples before \<open>k\<close>, \<open>audioLevelAt \<dots> i\<close> the level
  computed for sample \<open>i\<close>, and \<open>audioLevels\<close> the levels of a whole call.
\<close>

definition oscillatorAfter ::
  "real \<Rightarrow> real \<Rightarrow> real list option \<Rightarrow> nat \<Rightarrow> Oscillator \<Rightarrow> Oscillator" where
  "oscillatorAfter targetFrequency pitchBend modulatorSignal k osc =
     fold (\<lambda>i osc'. snd (nextAudioLevel targetFrequency pitchBend modulatorSignal i osc'))
       [0..<k] osc"

definition audioLevelAt ::
  "real \<Rightarrow> real \<Rightarrow> real list option \<Rightarrow> nat \<Rightarrow> Oscillator \<Rightarrow> real" where
  "audioLevelAt targetFrequency pitchBend modulatorSignal i osc =
     fst (nextAudioLevel targetFrequency pitchBend modulatorSignal i
            (oscillatorAfter targetFrequency pitchBend modulatorSignal i osc))"

definition audioLevels :: "AudioBuffer \<Rightarrow> real list option \<Rightarrow> Oscillator \<Rightarrow> real list" where
  "audioLevels buffer modulatorSignal osc =
     (let n = length (channel0 buffer);
          osc0 = (if osc_IS_MODULATOR osc \<and> osc_modulatorSignal osc = None
                  then osc\<lparr>osc_modulatorSignal := Some (replicate n 0)\<rparr>
                  else osc);
          targetFrequency = getInstantaneousFrequency osc0 (osc_activeNote osc0);
          pitchBend = getPitchBend osc0
      in map (\<lambda>i. audioLevelAt targetFrequency pitchBend modulatorSignal i osc0) [0..<n])"

text \<open>
  The oscillator after \<open>getGlideFrequency_\<close> has been called once for each target
  of a list, with the frequencies returned; and after \<open>advancedPhase_\<close> has been
  called once for each frequency of a list, with the progress values returned.
\<close>

fun glideFrequencies :: "real list \<Rightarrow> Oscillator \<Rightarrow> real list \<times> Oscillator" where
  "glideFrequencies [] osc = ([], osc)"
| "glideFrequencies (target # targets) osc =
     (let (f, osc1) = getGlideFrequency target osc;
          (fs, osc2) = glideFrequencies targets osc1
      in (f # fs, osc2))"

fun glideFrequenciesBy ::
  "(real \<Rightarrow> real \<Rightarrow> bool) \<Rightarrow> real list \<Rightarrow> Oscillator \<Rightarrow> real list \<times> Oscillator" where
  "glideFrequenciesBy le [] osc = ([], osc)"
| "glideFrequenciesBy le (target # targets) osc =
     (let (f, osc1) = getGlideFrequencyBy le target osc;
          (fs, osc2) = glideFrequenciesBy le targets osc1
      in (f # fs, osc2))"

fun advancedPhases :: "real list \<Rightarrow> Oscillator \<Rightarrow> real list \<times> Oscillator" where
  "advancedPhases [] osc = ([], osc)"
| "advancedPhases (frequency # frequencies) osc =
     (let (p, osc1) = advancedPhase frequency osc;
          (ps, osc2) = advancedPhases frequencies osc1
      in (p # ps, osc2))"

section \<open>low\_pass\_filter.js\<close>

text \<open>
  The filter drives \<open>lowPassFilterNode_.frequency\<close>, an audio parameter of the Web
  Audio interface.  The parameter is the record of what the filter asks of it: each
  method call and each assignment to \<open>value\<close>, in the order made.
\<close>

datatype AudioParamCall =
    CancelScheduledValues real
  | AssignValue real
  | SetValueAtTime real real
  | ExponentialRampToValueAtTime real real

record LowPassFilter =
  lpf_frequencyCalls :: "AudioParamCall list"
  lpf_cutoffFrequency :: real
  lpf_contour :: real
  lpf_attackTime :: real
  lpf_decayTime :: real
  lpf_sustainLevel :: real

definition resetContourEnvelope :: "LowPassFilter \<Rightarrow> LowPassFilter" where
  "resetContourEnvelope f =
     f\<lparr>lpf_frequencyCalls :=
         lpf_frequencyCalls f @ [CancelScheduledValues 0, AssignValue (lpf_cutoffFrequency f)]\<rparr>"

definition newLowPassFilter :: "real \<Rightarrow> real \<Rightarrow> real \<Rightarrow> real \<Rightarrow> real \<Rightarrow> LowPassFilter" where
  "newLowPassFilter cutoffFrequency contour attackTime decayTime sustainLevel =
     resetContourEnvelope
       \<lparr>lpf_frequencyCalls = [],
        lpf_cutoffFrequency = cutoffFrequency,
        lpf_contour = contour,
        lpf_attackTime = attackTime,
        lpf_decayTime = decayTime,
        lpf_sustainLevel = sustainLevel\<rparr>"


definition setCutoffFrequency :: "real \<Rightarrow> LowPassFilter \<Rightarrow> LowPassFilter" where
  "setCutoffFrequency cutoffFrequency f =
     resetContourEnvelope (f\<lparr>lpf_cutoffFrequency := cutoffFrequency\<rparr>)"

definition setContour :: "real \<Rightarrow> LowPassFilter \<Rightarrow> LowPassFilter" where
  "setContour contour f = resetContourEnvelope (f\<lparr>lpf_contour := contour\<rparr>)"

definition setContourAttackTime :: "real \<Rightarrow> LowPassFilter \<Rightarrow> LowPassFilter" where
  "setContourAttackTime time f = resetContourEnvelope (f\<lparr>lpf_attackTime := time\<rparr>)"

definition setContourDecayTime :: "real \<Rightarrow> LowPassFilter \<Rightarrow> LowPassFilter" where
  "setContourDecayTime time f = resetContourEnvelope (f\<lparr>lpf_decayTime := time\<rparr>)"

definition setContourSustainLevel :: "real \<Rightarrow> LowPassFilter \<Rightarrow> LowPassFilter" where
  "setContourSustainLevel level f = resetContourEnvelope (f\<lparr>lpf_sustainLevel := level\<rparr>)"


section \<open>Envelope: invariant\<close>

lemma recomputePhaseSteps_fields [simp]:
  "eg_SAMPLE_INTERVAL (recomputePhaseSteps e) = eg_SAMPLE_INTERVAL e"
  "eg_amplitudeCoefficient (recomputePhaseSteps e) = eg_amplitudeCoefficient e"
  "eg_phase (recomputePhaseSteps e) = eg_phase e"
  "eg_attackTime (recomputePhaseSteps e) = eg_attackTime e"
  "eg_decayTime (recomputePhaseSteps e) = eg_decayTime e"
  "eg_sustainLevel (recomputePhaseSteps e) = eg_sustainLevel e"
  by (simp_all add: recomputePhaseSteps_def Let_def)

lemma recomputePhaseSteps_steps:
  "eg_attackStep (recomputePhaseSteps e) =
     (if eg_attackTime e \<le> 0 then 1 else eg_SAMPLE_INTERVAL e / eg_attackTime e)"
  "eg_decayStep (recomputePhaseSteps e) =
     (if eg_decayTime e \<le> 0 then 1
      else (1 - eg_sustainLevel e) * eg_SAMPLE_INTERVAL e / eg_decayTime e)"
  "eg_releaseStep (recomputePhaseSteps e) =
     (if eg_decayTime e \<le> 0 then 1
      else eg_sustainLevel e * eg_SAMPLE_INTERVAL e / eg_decayTime e)"
  by (simp_all add: recomputePhaseSteps_def Let_def)

lemma recomputePhaseSteps_invariant:
  assumes "0 \<le> eg_SAMPLE_INTERVAL e" "0 \<le> eg_sustainLevel e" "eg_sustainLevel e \<le> 1"
    "0 \<le> eg_amplitudeCoefficient e" "eg_amplitudeCoefficient e \<le> 1"
  shows "envelopeInvariant (recomputePhaseSteps e)"
  using assms by (simp add: envelopeInvariant_def recomputePhaseSteps_steps)

lemma newEnvelopeGenerator_invariant:
  "0 \<le> T \<Longrightarrow> 0 \<le> s \<Longrightarrow> s \<le> 1 \<Longrightarrow> envelopeInvariant (newEnvelopeGenerator T a d s)"
  unfolding newEnvelopeGenerator_def by (rule recomputePhaseSteps_invariant) simp_all

lemma startAttack_invariant: "envelopeInvariant e \<Longrightarrow> envelopeInvariant (startAttack e)"
  by (simp add: envelopeInvariant_def startAttack_def recomputePhaseSteps_steps)

lemma startRelease_invariant: "envelopeInvariant e \<Longrightarrow> envelopeInvariant (startRelease e)"
  by (simp add: envelopeInvariant_def startRelease_def)

lemma advanceEnvelope_invariant: "envelopeInvariant e \<Longrightarrow> envelopeInvariant (advanceEnvelope e)"
  by (cases "eg_phase e") (auto simp: envelopeInvariant_def advanceEnvelope_def Let_def)

lemma setAttackTime_invariant: "envelopeInvariant e \<Longrightarrow> envelopeInvariant (setAttackTime t e)"
  unfolding setAttackTime_def by (rule recomputePhaseSteps_invariant) (simp_all add: envelopeInvariant_def)

lemma setDecayTime_invariant: "envelopeInvariant e \<Longrightarrow> envelopeInvariant (setDecayTime t e)"
  unfolding setDecayTime_def by (rule recomputePhaseSteps_invariant) (simp_all add: envelopeInvariant_def)

lemma setSustainLevel_invariant:
  "envelopeInvariant e \<Longrightarrow> 0 \<le> l \<Longrightarrow> l \<le> 1 \<Longrightarrow> envelopeInvariant (setSustainLevel l e)"
  unfolding setSustainLevel_def by (rule recomputePhaseSteps_invariant) (simp_all add: envelopeInvariant_def)

lemma envelopeCall_invariant:
  "envelopeInvariant e \<Longrightarrow> validCall c \<Longrightarrow> envelopeInvariant (envelopeCall c e)"
  by (cases c)
     (simp_all add: startAttack_invariant startRelease_invariant advanceEnvelope_invariant
        setAttackTime_invariant setDecayTime_invariant setSustainLevel_invariant
        getNextAmplitudeCoefficient_def Let_def)

lemma envelopeCalls_invariant:
  "envelopeInvariant e \<Longrightarrow> list_all validCall cs \<Longrightarrow> envelopeInvariant (envelopeCalls cs e)"
  by (induction cs arbitrary: e) (simp_all add: envelopeCall_invariant)

text \<open>
  C4.  An envelope built with a sustain level in [0, 1], and given only sustain levels
  in [0, 1] by \<open>setSustainLevel\<close>, has its amplitude coefficient in [0, 1] when it
  is built and after every sequence of calls of \<open>startAttack\<close>, \<open>startRelease\<close>,
  \<open>setAttackTime\<close>, \<open>setDecayTime\<close>, \<open>setSustainLevel\<close> and
  \<open>getNextAmplitudeCoefficient\<close>, in any order and with any attack and decay
  times.  The sample interval, the number of seconds per sample, is not negative.
\<close>

theorem amplitudeCoefficient_in_unit_interval:
  assumes "0 \<le> sampleInterval" and "0 \<le> sustainLevel" and "sustainLevel \<le> 1"
    and "list_all validCall cs"
  shows "0 \<le> eg_amplitudeCoefficient
              (envelopeCalls cs (newEnvelopeGenerator sampleInterval attackTime decayTime sustainLevel))
       \<and> eg_amplitudeCoefficient
              (envelopeCalls cs (newEnvelopeGenerator sampleInterval attackTime decayTime sustainLevel)) \<le> 1"
proof -
  have "envelopeInvariant
          (envelopeCalls cs (newEnvelopeGenerator sampleInterval attackTime decayTime sustainLevel))"
    using assms by (intro envelopeCalls_invariant newEnvelopeGenerator_invariant)
  then show ?thesis by (simp add: envelopeInvariant_def)
qed

lemmas envelope_eval =
  newEnvelopeGenerator_def recomputePhaseSteps_def startAttack_def startRelease_def
  advanceEnvelope_def getNextAmplitudeCoefficient_def setAttackTime_def setDecayTime_def
  setSustainLevel_def Let_def

theorem amplitudeCoefficient_in_unit_interval_witness:
  "(0::real) \<le> 1/4 \<and> (0::real) \<le> 1/2 \<and> (1/2::real) \<le> 1
   \<and> list_all validCall [StartAttack, GetNextAmplitudeCoefficient, SetSustainLevel (1/4),
        SetDecayTime 0, StartRelease, GetNextAmplitudeCoefficient]
   \<and> 0 \<le> eg_amplitudeCoefficient
              (envelopeCalls [StartAttack, GetNextAmplitudeCoefficient, SetSustainLevel (1/4),
                  SetDecayTime 0, StartRelease, GetNextAmplitudeCoefficient]
                (newEnvelopeGenerator (1/4) 1 1 (1/2)))
   \<and> eg_amplitudeCoefficient
              (envelopeCalls [StartAttack, GetNextAmplitudeCoefficient, SetSustainLevel (1/4),
                  SetDecayTime 0, StartRelease, GetNextAmplitudeCoefficient]
                (newEnvelopeGenerator (1/4) 1 1 (1/2))) \<le> 1"
  using amplitudeCoefficient_in_unit_interval [of "1/4" "1/2"
      "[StartAttack, GetNextAmplitudeCoefficient, SetSustainLevel (1/4),
        SetDecayTime 0, StartRelease, GetNextAmplitudeCoefficient]" 1 1]
  by simp

section \<open>Envelope: release\<close>

text \<open>
  C5.  Calling \<open>startRelease\<close> twice in direct succession leaves the envelope in
  exactly the state one call leaves it in: the second call finds the phase RELEASE and
  returns at once, so the release step is neither recomputed nor applied twice, and
  the coefficients returned by any number of later \<open>getNextAmplitudeCoefficient\<close>
  calls are the same.
\<close>

theorem startRelease_idempotent:
  "startRelease (startRelease e) = startRelease e
   \<and> eg_phase (startRelease e) = RELEASE
   \<and> coefficients n (startRelease (startRelease e)) = coefficients n (startRelease e)"
  by (simp add: startRelease_def)

lemma advanceEnvelope_fields [simp]:
  "eg_SAMPLE_INTERVAL (advanceEnvelope e) = eg_SAMPLE_INTERVAL e"
  "eg_attackTime (advanceEnvelope e) = eg_attackTime e"
  "eg_attackStep (advanceEnvelope e) = eg_attackStep e"
  "eg_decayTime (advanceEnvelope e) = eg_decayTime e"
  "eg_decayStep (advanceEnvelope e) = eg_decayStep e"
  "eg_sustainLevel (advanceEnvelope e) = eg_sustainLevel e"
  "eg_releaseStep (advanceEnvelope e) = eg_releaseStep e"
  by (cases "eg_phase e"; simp add: advanceEnvelope_def Let_def)+

lemma samples_Suc: "samples (Suc n) e = advanceEnvelope (samples n e)"
  by (induction n arbitrary: e) (simp_all add: getNextAmplitudeCoefficient_def Let_def)

lemma samples_add: "samples (m + n) e = samples n (samples m e)"
  by (induction m arbitrary: e) simp_all

lemma samples_releaseStep [simp]: "eg_releaseStep (samples n e) = eg_releaseStep e"
  by (induction n) (simp_all add: samples_Suc del: samples.simps(2))

text \<open>
  What holds of the release step without a setter: \<open>startRelease\<close>, called in
  another phase than RELEASE, enters RELEASE with the step computed from the amplitude
  at that moment; \<open>getNextAmplitudeCoefficient\<close> never changes the step; and a
  sample taken in RELEASE subtracts it.
\<close>

lemma release_step_kept_by_sampling:
  "(eg_phase e \<noteq> RELEASE \<longrightarrow>
      eg_phase (startRelease e) = RELEASE
      \<and> eg_releaseStep (startRelease e) =
          (if eg_decayTime e \<le> 0 then 1
           else eg_amplitudeCoefficient e * eg_SAMPLE_INTERVAL e / eg_decayTime e))
   \<and> eg_releaseStep (samples n e) = eg_releaseStep e
   \<and> (eg_phase e = RELEASE \<longrightarrow>
        fst (getNextAmplitudeCoefficient e) =
          (if eg_amplitudeCoefficient e - eg_releaseStep e \<le> 0 then 0
           else eg_amplitudeCoefficient e - eg_releaseStep e))"
  by (simp add: startRelease_def getNextAmplitudeCoefficient_def advanceEnvelope_def Let_def)

text \<open>A release whose step is 0 never ends: every sample returns the same coefficient.\<close>

lemma release_stalls:
  assumes "eg_phase e = RELEASE" and "eg_releaseStep e = 0" and "0 < eg_amplitudeCoefficient e"
  shows "samples n e = e" and "coefficients n e = replicate n (eg_amplitudeCoefficient e)"
proof -
  have step: "getNextAmplitudeCoefficient e = (eg_amplitudeCoefficient e, e)"
    using assms by (simp add: getNextAmplitudeCoefficient_def advanceEnvelope_def Let_def)
  show "samples n e = e" by (induction n) (simp_all add: step)
  show "coefficients n e = replicate n (eg_amplitudeCoefficient e)"
    by (induction n) (simp_all add: step)
qed

text \<open>
  C2.  The release step is to stay the one \<open>startRelease\<close> computed from the
  amplitude at release start, also when a setter is called during the release.  The
  code does not keep it: every setter calls \<open>recomputePhaseSteps_\<close>, which
  assigns \<open>releaseStep_\<close> in every phase.  An envelope with sample interval 1/4,
  attack and decay time 1 and sustain level 0 is released after two attack samples, at
  amplitude 1/2, with release step 1/8, so that the next sample would be 3/8.
  \<open>setDecayTime(2)\<close> in that state leaves the phase RELEASE and makes the step
  \<open>0 * 1/4 / 2 = 0\<close>, as \<open>setAttackTime(1)\<close> and \<open>setSustainLevel(0)\<close> do:
  every later sample returns 1/2 and the phase stays RELEASE for ever.
\<close>

theorem setter_in_release_overwrites_step:
  "eg_phase (startRelease (samples 2 (startAttack (newEnvelopeGenerator (1/4) 1 1 0)))) = RELEASE
   \<and> eg_amplitudeCoefficient
        (startRelease (samples 2 (startAttack (newEnvelopeGenerator (1/4) 1 1 0)))) = 1/2
   \<and> eg_releaseStep
        (startRelease (samples 2 (startAttack (newEnvelopeGenerator (1/4) 1 1 0)))) = 1/8
   \<and> eg_phase (setDecayTime 2
        (startRelease (samples 2 (startAttack (newEnvelopeGenerator (1/4) 1 1 0))))) = RELEASE
   \<and> eg_releaseStep (setDecayTime 2
        (startRelease (samples 2 (startAttack (newEnvelopeGenerator (1/4) 1 1 0))))) = 0
   \<and> eg_releaseStep (setAttackTime 1
        (startRelease (samples 2 (startAttack (newEnvelopeGenerator (1/4) 1 1 0))))) = 0
   \<and> eg_releaseStep (setSustainLevel 0
        (startRelease (samples 2 (startAttack (newEnvelopeGenerator (1/4) 1 1 0))))) = 0
   \<and> fst (getNextAmplitudeCoefficient (setDecayTime 2
        (startRelease (samples 2 (startAttack (newEnvelopeGenerator (1/4) 1 1 0)))))) = 1/2
   \<and> fst (getNextAmplitudeCoefficient
        (startRelease (samples 2 (startAttack (newEnvelopeGenerator (1/4) 1 1 0))))) = 3/8
   \<and> coefficients n (setDecayTime 2
        (startRelease (samples 2 (startAttack (newEnvelopeGenerator (1/4) 1 1 0)))))
       = replicate n (1/2)
   \<and> eg_phase (samples n (setDecayTime 2
        (startRelease (samples 2 (startAttack (newEnvelopeGenerator (1/4) 1 1 0)))))) = RELEASE"
proof -
  let ?r = "startRelease (samples 2 (startAttack (newEnvelopeGenerator (1/4) 1 1 0)))"
  have r: "eg_phase ?r = RELEASE" "eg_amplitudeCoefficient ?r = 1/2" "eg_releaseStep ?r = 1/8"
    "fst (getNextAmplitudeCoefficient ?r) = 3/8"
    by (simp_all add: envelope_eval eval_nat_numeral)
  have s: "eg_phase (setDecayTime 2 ?r) = RELEASE" "eg_releaseStep (setDecayTime 2 ?r) = 0"
    "eg_amplitudeCoefficient (setDecayTime 2 ?r) = 1/2"
    "eg_releaseStep (setAttackTime 1 ?r) = 0" "eg_releaseStep (setSustainLevel 0 ?r) = 0"
    by (simp_all add: envelope_eval eval_nat_numeral)
  have pos: "0 < eg_amplitudeCoefficient (setDecayTime 2 ?r)" by (simp add: s(3))
  note stall = release_stalls [OF s(1) s(2) pos, of n]
  have g: "fst (getNextAmplitudeCoefficient (setDecayTime 2 ?r)) = 1/2"
    using s(1,2,3) by (simp add: getNextAmplitudeCoefficient_def advanceEnvelope_def Let_def)
  have c: "coefficients n (setDecayTime 2 ?r) = replicate n (1/2)"
    using stall(2) by (simp only: s(3))
  have p: "eg_phase (samples n (setDecayTime 2 ?r)) = RELEASE"
    by (simp only: stall(1) s(1))
  show ?thesis
    by (intro conjI) (rule r s g c p)+
qed

text \<open>
  The same overwriting with a sustain level that is not 0: sample interval 1/8, attack
  and decay time 1, sustain level 1/2, released after four attack samples at amplitude
  1/2 with step 1/16; \<open>setDecayTime(2)\<close> makes the step \<open>1/2 * 1/8 / 2 = 1/32\<close>
  and the next sample 15/32.
\<close>

lemma release_step_recomputed_by_setter:
  "eg_phase (startRelease (samples 4 (startAttack (newEnvelopeGenerator (1/8) 1 1 (1/2))))) = RELEASE
   \<and> eg_amplitudeCoefficient
        (startRelease (samples 4 (startAttack (newEnvelopeGenerator (1/8) 1 1 (1/2))))) = 1/2
   \<and> eg_releaseStep
        (startRelease (samples 4 (startAttack (newEnvelopeGenerator (1/8) 1 1 (1/2))))) = 1/16
   \<and> eg_phase (setDecayTime 2
        (startRelease (samples 4 (startAttack (newEnvelopeGenerator (1/8) 1 1 (1/2)))))) = RELEASE
   \<and> eg_releaseStep (setDecayTime 2
        (startRelease (samples 4 (startAttack (newEnvelopeGenerator (1/8) 1 1 (1/2)))))) = 1/32
   \<and> fst (getNextAmplitudeCoefficient (setDecayTime 2
        (startRelease (samples 4 (startAttack (newEnvelopeGenerator (1/8) 1 1 (1/2))))))) = 15/32
   \<and> fst (getNextAmplitudeCoefficient (setDecayTime 2
        (startRelease (samples 4 (startAttack (newEnvelopeGenerator (1/8) 1 1 (1/2))))))) \<noteq>
       eg_amplitudeCoefficient
        (startRelease (samples 4 (startAttack (newEnvelopeGenerator (1/8) 1 1 (1/2)))))
       - eg_releaseStep
        (startRelease (samples 4 (startAttack (newEnvelopeGenerator (1/8) 1 1 (1/2)))))"
  by (simp add: envelope_eval eval_nat_numeral)

section \<open>Envelope: zero and negative times\<close>

lemma checkedDiv_positive: "0 < y \<Longrightarrow> checkedDiv x y = Some (x / y)"
  by (simp add: checkedDiv_def)

lemma recomputePhaseStepsChecked_succeeds:
  "recomputePhaseStepsChecked e = Some (recomputePhaseSteps e)"
  by (simp add: recomputePhaseStepsChecked_def recomputePhaseSteps_def checkedDiv_positive Let_def)

lemma startReleaseChecked_succeeds: "startReleaseChecked e = Some (startRelease e)"
  by (simp add: startReleaseChecked_def startRelease_def checkedDiv_positive)

lemma attack_in_one_sample:
  assumes "eg_attackTime e \<le> 0"
  shows "eg_attackStep (startAttack e) = 1"
    and "fst (getNextAmplitudeCoefficient (startAttack e)) = 1"
    and "eg_phase (snd (getNextAmplitudeCoefficient (startAttack e))) = DECAY"
  using assms
  by (simp_all add: startAttack_def recomputePhaseSteps_steps getNextAmplitudeCoefficient_def
        advanceEnvelope_def Let_def)

lemma decay_in_one_sample:
  assumes "envelopeInvariant e" and "eg_decayTime e \<le> 0" and "eg_phase e = DECAY"
  shows "eg_phase (advanceEnvelope e) = SUSTAIN"
    and "eg_amplitudeCoefficient (advanceEnvelope e) = eg_sustainLevel e"
  using assms by (simp_all add: envelopeInvariant_def advanceEnvelope_def Let_def)

lemma release_in_one_sample:
  assumes "envelopeInvariant e" and "eg_decayTime e \<le> 0" and "eg_phase e = RELEASE"
  shows "eg_phase (advanceEnvelope e) = INACTIVE"
    and "eg_amplitudeCoefficient (advanceEnvelope e) = 0"
  using assms by (simp_all add: envelopeInvariant_def advanceEnvelope_def Let_def)

text \<open>
  C6.  With an attack time that is zero or negative when \<open>startAttack\<close> is called,
  the attack step is 1 and the next \<open>getNextAmplitudeCoefficient\<close> returns 1 and
  enters DECAY.  With a decay time that is zero or negative, the decay and release
  steps of an envelope are 1, a sample taken in DECAY ends the decay and a sample
  taken in RELEASE ends the release; this is stated for every state \<open>r\<close> an envelope
  with a non-negative sample interval and sustain levels in [0, 1] reaches by calls of
  its interface.  No division of \<open>recomputePhaseSteps_\<close> or \<open>startRelease\<close> has
  a zero or negative divisor: the functions with checked divisions always have a
  result, the one of the source.
\<close>

theorem nonpositive_time_collapses_ramp:
  "(eg_attackTime e \<le> 0 \<longrightarrow>
      eg_attackStep (startAttack e) = 1
      \<and> fst (getNextAmplitudeCoefficient (startAttack e)) = 1
      \<and> eg_phase (snd (getNextAmplitudeCoefficient (startAttack e))) = DECAY)
   \<and> (0 \<le> sampleInterval \<and> 0 \<le> sustainLevel \<and> sustainLevel \<le> 1 \<and> list_all validCall cs
        \<and> r = envelopeCalls cs (newEnvelopeGenerator sampleInterval attackTime decayTime sustainLevel)
        \<and> eg_decayTime r \<le> 0 \<longrightarrow>
      eg_decayStep r = 1 \<and> eg_releaseStep r = 1
      \<and> (eg_phase r = DECAY \<longrightarrow>
            fst (getNextAmplitudeCoefficient r) = eg_sustainLevel r
            \<and> eg_phase (snd (getNextAmplitudeCoefficient r)) = SUSTAIN)
      \<and> (eg_phase r = RELEASE \<longrightarrow>
            fst (getNextAmplitudeCoefficient r) = 0
            \<and> eg_phase (snd (getNextAmplitudeCoefficient r)) = INACTIVE))
   \<and> recomputePhaseStepsChecked e = Some (recomputePhaseSteps e)
   \<and> startReleaseChecked e = Some (startRelease e)"
proof (intro conjI impI)
  assume h: "0 \<le> sampleInterval \<and> 0 \<le> sustainLevel \<and> sustainLevel \<le> 1 \<and> list_all validCall cs
        \<and> r = envelopeCalls cs (newEnvelopeGenerator sampleInterval attackTime decayTime sustainLevel)
        \<and> eg_decayTime r \<le> 0"
  then have inv: "envelopeInvariant r" and dt: "eg_decayTime r \<le> 0"
    by (auto simp: envelopeCalls_invariant newEnvelopeGenerator_invariant)
  from inv dt show "eg_decayStep r = 1" and "eg_releaseStep r = 1"
    by (simp_all add: envelopeInvariant_def)
  {
    assume "eg_phase r = DECAY"
    with inv dt show "fst (getNextAmplitudeCoefficient r) = eg_sustainLevel r"
      and "eg_phase (snd (getNextAmplitudeCoefficient r)) = SUSTAIN"
      by (simp_all add: getNextAmplitudeCoefficient_def Let_def decay_in_one_sample)
  }
  {
    assume "eg_phase r = RELEASE"
    with inv dt show "fst (getNextAmplitudeCoefficient r) = 0"
      and "eg_phase (snd (getNextAmplitudeCoefficient r)) = INACTIVE"
      by (simp_all add: getNextAmplitudeCoefficient_def Let_def release_in_one_sample)
  }
qed (simp_all add: attack_in_one_sample recomputePhaseStepsChecked_succeeds
       startReleaseChecked_succeeds)

theorem nonpositive_time_collapses_ramp_witness:
  "eg_attackTime (newEnvelopeGenerator (1/4) 0 0 (1/2)) \<le> 0
   \<and> fst (getNextAmplitudeCoefficient (startAttack (newEnvelopeGenerator (1/4) 0 0 (1/2)))) = 1
   \<and> (0::real) \<le> 1/4 \<and> (0::real) \<le> 1/2 \<and> (1/2::real) \<le> 1
   \<and> list_all validCall [StartAttack, GetNextAmplitudeCoefficient]
   \<and> eg_decayTime (envelopeCalls [StartAttack, GetNextAmplitudeCoefficient]
                      (newEnvelopeGenerator (1/4) 0 0 (1/2))) \<le> 0
   \<and> eg_phase (envelopeCalls [StartAttack, GetNextAmplitudeCoefficient]
                      (newEnvelopeGenerator (1/4) 0 0 (1/2))) = DECAY
   \<and> eg_phase (snd (getNextAmplitudeCoefficient
          (envelopeCalls [StartAttack, GetNextAmplitudeCoefficient]
              (newEnvelopeGenerator (1/4) 0 0 (1/2))))) = SUSTAIN
   \<and> list_all validCall [StartAttack, GetNextAmplitudeCoefficient, StartRelease]
   \<and> eg_decayTime (envelopeCalls [StartAttack, GetNextAmplitudeCoefficient, StartRelease]
                      (newEnvelopeGenerator (1/4) 0 0 (1/2))) \<le> 0
   \<and> eg_phase (envelopeCalls [StartAttack, GetNextAmplitudeCoefficient, StartRelease]
                      (newEnvelopeGenerator (1/4) 0 0 (1/2))) = RELEASE
   \<and> eg_phase (snd (getNextAmplitudeCoefficient
          (envelopeCalls [StartAttack, GetNextAmplitudeCoefficient, StartRelease]
              (newEnvelopeGenerator (1/4) 0 0 (1/2))))) = INACTIVE"
  using
    nonpositive_time_collapses_ramp [where e = "newEnvelopeGenerator (1/4) 0 0 (1/2)"
      and sampleInterval = "1/4" and sustainLevel = "1/2" and attackTime = 0 and decayTime = 0
      and cs = "[StartAttack, GetNextAmplitudeCoefficient]"
      and r = "envelopeCalls [StartAttack, GetNextAmplitudeCoefficient]
                 (newEnvelopeGenerator (1/4) 0 0 (1/2))"]
    nonpositive_time_collapses_ramp [where e = "newEnvelopeGenerator (1/4) 0 0 (1/2)"
      and sampleInterval = "1/4" and sustainLevel = "1/2" and attackTime = 0 and decayTime = 0
      and cs = "[StartAttack, GetNextAmplitudeCoefficient, StartRelease]"
      and r = "envelopeCalls [StartAttack, GetNextAmplitudeCoefficient, StartRelease]
                 (newEnvelopeGenerator (1/4) 0 0 (1/2))"]
  by (simp add: envelope_eval)

section \<open>Envelope: attack, decay and sustain\<close>

lemma samples_attack:
  assumes "eg_phase e = ATTACK" and "0 \<le> eg_attackStep e"
    and "eg_amplitudeCoefficient e + real k * eg_attackStep e < 1"
  shows "samples k e = e\<lparr>eg_amplitudeCoefficient := eg_amplitudeCoefficient e + real k * eg_attackStep e\<rparr>"
  using assms(3)
proof (induction k)
  case 0
  show ?case by simp
next
  case (Suc k)
  have "eg_amplitudeCoefficient e + real k * eg_attackStep e
        \<le> eg_amplitudeCoefficient e + real (Suc k) * eg_attackStep e"
    using assms(2) by (simp add: algebra_simps)
  with Suc.prems have "eg_amplitudeCoefficient e + real k * eg_attackStep e < 1" by linarith
  then have "samples k e =
      e\<lparr>eg_amplitudeCoefficient := eg_amplitudeCoefficient e + real k * eg_attackStep e\<rparr>"
    by (rule Suc.IH)
  then show ?case
    using Suc.prems assms(1)
    by (simp add: samples_Suc advanceEnvelope_def Let_def algebra_simps del: samples.simps(2))
qed

lemma samples_decay:
  assumes "eg_phase e = DECAY" and "0 \<le> eg_decayStep e"
    and "eg_sustainLevel e < eg_amplitudeCoefficient e - real k * eg_decayStep e"
  shows "samples k e = e\<lparr>eg_amplitudeCoefficient := eg_amplitudeCoefficient e - real k * eg_decayStep e\<rparr>"
  using assms(3)
proof (induction k)
  case 0
  show ?case by simp
next
  case (Suc k)
  have "eg_amplitudeCoefficient e - real (Suc k) * eg_decayStep e
        \<le> eg_amplitudeCoefficient e - real k * eg_decayStep e"
    using assms(2) by (simp add: algebra_simps)
  with Suc.prems have "eg_sustainLevel e < eg_amplitudeCoefficient e - real k * eg_decayStep e"
    by linarith
  then have "samples k e =
      e\<lparr>eg_amplitudeCoefficient := eg_amplitudeCoefficient e - real k * eg_decayStep e\<rparr>"
    by (rule Suc.IH)
  then show ?case
    using Suc.prems assms(1)
    by (simp add: samples_Suc advanceEnvelope_def Let_def algebra_simps del: samples.simps(2))
qed

lemma samples_sustain: "eg_phase e = SUSTAIN \<Longrightarrow> samples k e = e"
  by (induction k) (simp_all add: getNextAmplitudeCoefficient_def advanceEnvelope_def Let_def)

text \<open>The number of samples a ramp of step \<open>1 / r\<close> takes to cover 1.\<close>

lemma ramp_length:
  fixes r :: real
  assumes "0 < r"
  defines "n \<equiv> nat \<lceil>r\<rceil>"
  shows "0 < n" and "r \<le> real n" and "\<And>k. k < n \<Longrightarrow> real k < r"
proof -
  have c: "0 < \<lceil>r\<rceil>" using assms(1) by simp
  then show "0 < n" by (simp add: n_def)
  show "r \<le> real n" unfolding n_def by (rule real_nat_ceiling_ge)
  fix k assume "k < n"
  then have "int k < \<lceil>r\<rceil>" using c by (simp add: n_def)
  then have "int k \<le> \<lceil>r\<rceil> - 1" by simp
  then have "real_of_int (int k) \<le> real_of_int (\<lceil>r\<rceil> - 1)" by (simp only: of_int_le_iff)
  moreover have "real_of_int (\<lceil>r\<rceil> - 1) < r" using ceiling_correct [of r] by simp
  ultimately show "real k < r" by simp
qed

lemma attack_run:
  assumes ph: "eg_phase e = ATTACK" and a0: "eg_amplitudeCoefficient e = 0"
    and step: "0 < eg_attackStep e"
  defines "n \<equiv> nat \<lceil>1 / eg_attackStep e\<rceil>"
  shows "0 < n"
    and "\<And>k. k < n \<Longrightarrow>
           samples k e = e\<lparr>eg_amplitudeCoefficient := real k * eg_attackStep e\<rparr>"
    and "samples n e = e\<lparr>eg_amplitudeCoefficient := 1, eg_phase := DECAY\<rparr>"
    and "\<And>k. k < n \<Longrightarrow> real k * eg_attackStep e < 1"
proof -
  have r: "0 < 1 / eg_attackStep e" using step by simp
  show pos: "0 < n" unfolding n_def by (rule ramp_length(1) [OF r])
  show below: "real k * eg_attackStep e < 1" if "k < n" for k
  proof -
    have "real k < 1 / eg_attackStep e"
      using that unfolding n_def by (rule ramp_length(3) [OF r])
    then show ?thesis using step by (simp add: pos_less_divide_eq)
  qed
  show before: "samples k e = e\<lparr>eg_amplitudeCoefficient := real k * eg_attackStep e\<rparr>"
    if "k < n" for k
    using samples_attack [OF ph, of k] step a0 below [OF that] by simp
  obtain m where m: "n = Suc m" using pos by (cases n) simp_all
  have "1 / eg_attackStep e \<le> real n" unfolding n_def by (rule ramp_length(2) [OF r])
  then have "1 \<le> real n * eg_attackStep e" using step by (simp add: pos_divide_le_eq)
  then have "1 \<le> real m * eg_attackStep e + eg_attackStep e" by (simp add: m algebra_simps)
  moreover have "samples m e = e\<lparr>eg_amplitudeCoefficient := real m * eg_attackStep e\<rparr>"
    by (rule before) (simp add: m)
  ultimately show "samples n e = e\<lparr>eg_amplitudeCoefficient := 1, eg_phase := DECAY\<rparr>"
    using ph by (simp add: m samples_Suc advanceEnvelope_def Let_def del: samples.simps(2))
qed

lemma decay_run:
  assumes ph: "eg_phase e = DECAY" and a1: "eg_amplitudeCoefficient e = 1"
    and step: "0 \<le> eg_decayStep e" and s1: "eg_sustainLevel e \<le> 1"
    and pos: "eg_sustainLevel e < 1 \<Longrightarrow> 0 < eg_decayStep e"
  shows "\<exists>n>0. (\<forall>k<n. eg_phase (samples k e) = DECAY
                    \<and> eg_amplitudeCoefficient (samples k e) = 1 - real k * eg_decayStep e
                    \<and> eg_sustainLevel e \<le> 1 - real k * eg_decayStep e)
              \<and> samples n e = e\<lparr>eg_amplitudeCoefficient := eg_sustainLevel e, eg_phase := SUSTAIN\<rparr>"
proof (cases "eg_sustainLevel e < 1")
  case False
  with s1 have s: "eg_sustainLevel e = 1" by simp
  have "samples 1 e = e\<lparr>eg_amplitudeCoefficient := eg_sustainLevel e, eg_phase := SUSTAIN\<rparr>"
    using ph a1 step s by (simp add: getNextAmplitudeCoefficient_def advanceEnvelope_def Let_def)
  then show ?thesis using s a1 ph by (intro exI [of _ 1]) simp
next
  case True
  then have g: "0 < eg_decayStep e" by (rule pos)
  define r where "r = (1 - eg_sustainLevel e) / eg_decayStep e"
  define n where "n = nat \<lceil>r\<rceil>"
  have r: "0 < r" using True g by (simp add: r_def)
  have npos: "0 < n" unfolding n_def by (rule ramp_length(1) [OF r])
  have before: "samples k e = e\<lparr>eg_amplitudeCoefficient := 1 - real k * eg_decayStep e\<rparr>
                \<and> eg_sustainLevel e \<le> 1 - real k * eg_decayStep e"
    if "k < n" for k
  proof -
    have "real k < r" using that unfolding n_def by (rule ramp_length(3) [OF r])
    then have "real k * eg_decayStep e < 1 - eg_sustainLevel e"
      using g by (simp add: r_def pos_less_divide_eq)
    then have lt: "eg_sustainLevel e < eg_amplitudeCoefficient e - real k * eg_decayStep e"
      using a1 by simp
    show ?thesis using samples_decay [OF ph step lt] lt a1 by simp
  qed
  obtain m where m: "n = Suc m" using npos by (cases n) simp_all
  have "r \<le> real n" unfolding n_def by (rule ramp_length(2) [OF r])
  then have "1 - eg_sustainLevel e \<le> real n * eg_decayStep e"
    using g by (simp add: r_def pos_divide_le_eq)
  then have "1 - real m * eg_decayStep e - eg_decayStep e \<le> eg_sustainLevel e"
    by (simp add: m algebra_simps)
  moreover have "samples m e = e\<lparr>eg_amplitudeCoefficient := 1 - real m * eg_decayStep e\<rparr>"
    using before [of m] by (simp add: m)
  ultimately have
    "samples n e = e\<lparr>eg_amplitudeCoefficient := eg_sustainLevel e, eg_phase := SUSTAIN\<rparr>"
    using ph by (simp add: m samples_Suc advanceEnvelope_def Let_def del: samples.simps(2))
  moreover have "eg_phase (samples k e) = DECAY
      \<and> eg_amplitudeCoefficient (samples k e) = 1 - real k * eg_decayStep e
      \<and> eg_sustainLevel e \<le> 1 - real k * eg_decayStep e" if "k < n" for k
    using before [OF that] ph by simp
  ultimately show ?thesis using npos by blast
qed

text \<open>
  The \<open>k\<close>-th coefficient returned, counting from 0, is the field
  \<open>amplitudeCoefficient_\<close> after \<open>k + 1\<close> calls.
\<close>

lemma coefficients_length [simp]: "length (coefficients n e) = n"
  by (induction n arbitrary: e) (simp_all add: split_beta)

lemma coefficients_nth:
  "k < n \<Longrightarrow> coefficients n e ! k = eg_amplitudeCoefficient (samples (Suc k) e)"
proof (induction n arbitrary: e k)
  case 0
  then show ?case by simp
next
  case (Suc n)
  show ?case
  proof (cases k)
    case 0
    then show ?thesis by (simp add: split_beta getNextAmplitudeCoefficient_def Let_def)
  next
    case (Suc j)
    with Suc.prems have "j < n" by simp
    then show ?thesis using Suc.IH [of j] by (simp add: split_beta Suc)
  qed
qed

text \<open>
  The field \<open>amplitudeCoefficient_\<close> along the samples taken after
  \<open>startAttack\<close>: \<open>nA > 0\<close> samples start in ATTACK and do not lower it, it is
  1 when DECAY is entered, \<open>nD > 0\<close> samples start in DECAY and do not raise it nor
  take it below the sustain level, and from then on the phase is SUSTAIN and the field
  the sustain level.
\<close>

lemma attack_decay_sustain_fields:
  assumes T: "0 < eg_SAMPLE_INTERVAL e" and a: "0 < eg_attackTime e" and d: "0 < eg_decayTime e"
    and s0: "0 \<le> eg_sustainLevel e" and s1: "eg_sustainLevel e \<le> 1"
  shows "\<exists>nA nD. 0 < nA \<and> 0 < nD
     \<and> (\<forall>k<nA. eg_phase (samples k (startAttack e)) = ATTACK
            \<and> eg_amplitudeCoefficient (samples k (startAttack e))
                \<le> eg_amplitudeCoefficient (samples (Suc k) (startAttack e)))
     \<and> eg_phase (samples nA (startAttack e)) = DECAY
     \<and> eg_amplitudeCoefficient (samples nA (startAttack e)) = 1
     \<and> (\<forall>k. nA \<le> k \<and> k < nA + nD \<longrightarrow>
            eg_phase (samples k (startAttack e)) = DECAY
            \<and> eg_amplitudeCoefficient (samples (Suc k) (startAttack e))
                \<le> eg_amplitudeCoefficient (samples k (startAttack e))
            \<and> eg_sustainLevel e \<le> eg_amplitudeCoefficient (samples (Suc k) (startAttack e)))
     \<and> (\<forall>k\<ge>nA + nD. eg_phase (samples k (startAttack e)) = SUSTAIN
            \<and> eg_amplitudeCoefficient (samples k (startAttack e)) = eg_sustainLevel e)"
proof -
  define e0 where "e0 = startAttack e"
  define nA where "nA = nat \<lceil>1 / eg_attackStep e0\<rceil>"
  define e1 where "e1 = e0\<lparr>eg_amplitudeCoefficient := 1, eg_phase := DECAY\<rparr>"
  have ph0: "eg_phase e0 = ATTACK" and amp0: "eg_amplitudeCoefficient e0 = 0"
    and sus0: "eg_sustainLevel e0 = eg_sustainLevel e"
    by (simp_all add: e0_def startAttack_def)
  have astep: "0 < eg_attackStep e0"
    using T a by (simp add: e0_def startAttack_def recomputePhaseSteps_steps)
  have dstep: "eg_decayStep e0 = (1 - eg_sustainLevel e) * eg_SAMPLE_INTERVAL e / eg_decayTime e"
    using d by (simp add: e0_def startAttack_def recomputePhaseSteps_steps)
  have dstep0: "0 \<le> eg_decayStep e0" using T d s1 by (simp add: dstep)
  have dstep1: "0 < eg_decayStep e0" if "eg_sustainLevel e < 1"
    using T d that by (simp add: dstep)
  note A = attack_run [OF ph0 amp0 astep, folded nA_def e1_def]
  have "\<exists>n>0. (\<forall>k<n. eg_phase (samples k e1) = DECAY
                    \<and> eg_amplitudeCoefficient (samples k e1) = 1 - real k * eg_decayStep e1
                    \<and> eg_sustainLevel e1 \<le> 1 - real k * eg_decayStep e1)
              \<and> samples n e1 = e1\<lparr>eg_amplitudeCoefficient := eg_sustainLevel e1, eg_phase := SUSTAIN\<rparr>"
    by (rule decay_run) (use dstep0 dstep1 s1 sus0 in \<open>simp_all add: e1_def\<close>)
  then obtain nD where nD: "0 < nD"
    and D: "\<And>k. k < nD \<Longrightarrow> eg_phase (samples k e1) = DECAY
                    \<and> eg_amplitudeCoefficient (samples k e1) = 1 - real k * eg_decayStep e1
                    \<and> eg_sustainLevel e1 \<le> 1 - real k * eg_decayStep e1"
    and e2: "samples nD e1 = e1\<lparr>eg_amplitudeCoefficient := eg_sustainLevel e1, eg_phase := SUSTAIN\<rparr>"
    by blast
  have sus1: "eg_sustainLevel e1 = eg_sustainLevel e" by (simp add: e1_def sus0)
  have g1: "0 \<le> eg_decayStep e1" using dstep0 by (simp add: e1_def)
  have atk: "eg_phase (samples k e0) = ATTACK
        \<and> eg_amplitudeCoefficient (samples k e0) \<le> eg_amplitudeCoefficient (samples (Suc k) e0)"
    if "k < nA" for k
  proof (cases "Suc k < nA")
    case True
    show ?thesis
      using A(2) [OF that] A(2) [OF True] ph0 astep by (simp add: algebra_simps del: samples.simps(2))
  next
    case False
    with that have "Suc k = nA" by simp
    then have "samples (Suc k) e0 = e1" using A(3) by simp
    then show ?thesis
      using A(2) [OF that] A(4) [OF that] ph0 by (simp add: e1_def del: samples.simps(2))
  qed
  have dec: "eg_phase (samples (nA + j) e0) = DECAY
        \<and> eg_amplitudeCoefficient (samples (Suc (nA + j)) e0)
            \<le> eg_amplitudeCoefficient (samples (nA + j) e0)
        \<and> eg_sustainLevel e \<le> eg_amplitudeCoefficient (samples (Suc (nA + j)) e0)"
    if "j < nD" for j
  proof -
    have shift: "samples (nA + i) e0 = samples i e1" for i
      by (simp add: samples_add A(3))
    have shift': "samples (Suc (nA + j)) e0 = samples (Suc j) e1"
      using shift [of "Suc j"] by (simp del: samples.simps(2))
    show ?thesis
    proof (cases "Suc j < nD")
      case True
      show ?thesis
        unfolding shift shift'
        using D [OF that] D [OF True] g1 sus1
        by (simp add: algebra_simps del: samples.simps(2))
    next
      case False
      with that have "Suc j = nD" by simp
      then have "samples (Suc j) e1 =
          e1\<lparr>eg_amplitudeCoefficient := eg_sustainLevel e1, eg_phase := SUSTAIN\<rparr>"
        using e2 by simp
      then show ?thesis
        unfolding shift shift'
        using D [OF that] sus1 by (simp del: samples.simps(2))
    qed
  qed
  have sus: "eg_phase (samples k e0) = SUSTAIN
        \<and> eg_amplitudeCoefficient (samples k e0) = eg_sustainLevel e"
    if "nA + nD \<le> k" for k
  proof -
    define i where "i = k - (nA + nD)"
    have k: "k = nA + (nD + i)" using that by (simp add: i_def)
    have "samples k e0 = samples i (samples nD (samples nA e0))"
      unfolding k by (simp only: samples_add)
    also have "\<dots> = samples i (samples nD e1)" by (simp only: A(3))
    also have "\<dots> = samples nD e1" by (rule samples_sustain) (simp add: e2)
    finally show ?thesis by (simp add: e2 sus1)
  qed
  have dec': "eg_phase (samples k e0) = DECAY
        \<and> eg_amplitudeCoefficient (samples (Suc k) e0) \<le> eg_amplitudeCoefficient (samples k e0)
        \<and> eg_sustainLevel e \<le> eg_amplitudeCoefficient (samples (Suc k) e0)"
    if "nA \<le> k \<and> k < nA + nD" for k
  proof -
    define j where "j = k - nA"
    have "k = nA + j" and "j < nD" using that by (auto simp: j_def)
    then show ?thesis using dec [of j] by simp
  qed
  have "eg_phase (samples nA e0) = DECAY" and "eg_amplitudeCoefficient (samples nA e0) = 1"
    by (simp_all add: A(3) e1_def)
  with A(1) nD atk dec' sus show ?thesis
    unfolding e0_def by (intro exI [of _ nA] exI [of _ nD]) simp
qed

text \<open>The number a call returns is the field after the call.\<close>

lemma returned_coefficient:
  "fst (getNextAmplitudeCoefficient (samples k e)) = eg_amplitudeCoefficient (samples (Suc k) e)"
  by (simp add: samples_Suc getNextAmplitudeCoefficient_def Let_def del: samples.simps(2))

text \<open>
  C1.  Take an envelope with a positive sample interval, positive attack and decay
  times and a sustain level in [0, 1], call \<open>startAttack\<close> and then
  \<open>getNextAmplitudeCoefficient\<close> again and again, over exact arithmetic; call
  number \<open>k\<close>, counting from 0, is made in the state \<open>samples k\<close> and returns
  \<open>fst (getNextAmplitudeCoefficient (samples k \<dots>))\<close>.  There are \<open>nA > 0\<close>
  attack calls and \<open>nD > 0\<close> decay calls.  The first \<open>nA\<close> calls are made in
  ATTACK: the first returns at least the 0 the attack starts from, each next one at
  least what the call before returned, and the last of them returns exactly 1 and
  enters DECAY.  The next \<open>nD\<close> calls are made in DECAY: each returns at most what
  the call before returned and at least the sustain level, and the last of them
  returns the sustain level.  Every later call is made in SUSTAIN and returns the
  sustain level.
\<close>

theorem attack_decay_sustain_returned:
  assumes T: "0 < eg_SAMPLE_INTERVAL e" and a: "0 < eg_attackTime e" and d: "0 < eg_decayTime e"
    and s0: "0 \<le> eg_sustainLevel e" and s1: "eg_sustainLevel e \<le> 1"
  shows "\<exists>nA nD. 0 < nA \<and> 0 < nD
     \<and> (\<forall>k<nA. eg_phase (samples k (startAttack e)) = ATTACK)
     \<and> 0 \<le> fst (getNextAmplitudeCoefficient (samples 0 (startAttack e)))
     \<and> (\<forall>k. Suc k < nA \<longrightarrow>
            fst (getNextAmplitudeCoefficient (samples k (startAttack e)))
              \<le> fst (getNextAmplitudeCoefficient (samples (Suc k) (startAttack e))))
     \<and> fst (getNextAmplitudeCoefficient (samples (nA - 1) (startAttack e))) = 1
     \<and> eg_phase (snd (getNextAmplitudeCoefficient (samples (nA - 1) (startAttack e)))) = DECAY
     \<and> (\<forall>k. nA \<le> k \<and> k < nA + nD \<longrightarrow>
            eg_phase (samples k (startAttack e)) = DECAY
            \<and> fst (getNextAmplitudeCoefficient (samples k (startAttack e)))
                \<le> fst (getNextAmplitudeCoefficient (samples (k - 1) (startAttack e)))
            \<and> eg_sustainLevel e \<le> fst (getNextAmplitudeCoefficient (samples k (startAttack e))))
     \<and> fst (getNextAmplitudeCoefficient (samples (nA + nD - 1) (startAttack e)))
           = eg_sustainLevel e
     \<and> (\<forall>k\<ge>nA + nD. eg_phase (samples k (startAttack e)) = SUSTAIN
            \<and> fst (getNextAmplitudeCoefficient (samples k (startAttack e))) = eg_sustainLevel e)"
proof -
  let ?E = "\<lambda>k. samples k (startAttack e)"
  let ?c = "\<lambda>k. fst (getNextAmplitudeCoefficient (?E k))"
  have c: "?c k = eg_amplitudeCoefficient (?E (Suc k))" for k by (rule returned_coefficient)
  from attack_decay_sustain_fields [OF assms] obtain nA nD
    where nA: "0 < nA" and nD: "0 < nD"
      and A: "\<And>k. k < nA \<Longrightarrow> eg_phase (?E k) = ATTACK
                \<and> eg_amplitudeCoefficient (?E k) \<le> eg_amplitudeCoefficient (?E (Suc k))"
      and B: "eg_phase (?E nA) = DECAY" "eg_amplitudeCoefficient (?E nA) = 1"
      and C: "\<And>k. nA \<le> k \<and> k < nA + nD \<Longrightarrow> eg_phase (?E k) = DECAY
                \<and> eg_amplitudeCoefficient (?E (Suc k)) \<le> eg_amplitudeCoefficient (?E k)
                \<and> eg_sustainLevel e \<le> eg_amplitudeCoefficient (?E (Suc k))"
      and S: "\<And>k. nA + nD \<le> k \<Longrightarrow> eg_phase (?E k) = SUSTAIN
                \<and> eg_amplitudeCoefficient (?E k) = eg_sustainLevel e"
    by blast
  have pre: "Suc (nA - 1) = nA" "Suc (nA + nD - 1) = nA + nD" using nA by simp_all
  have p1: "\<forall>k<nA. eg_phase (?E k) = ATTACK" using A by blast
  have "eg_amplitudeCoefficient (?E 0) = 0" by (simp add: startAttack_def)
  with A [OF nA] have p2: "0 \<le> ?c 0" unfolding c by simp
  have p3: "\<forall>k. Suc k < nA \<longrightarrow> ?c k \<le> ?c (Suc k)" unfolding c using A by blast
  have p4: "?c (nA - 1) = 1" unfolding c pre by (rule B(2))
  have "snd (getNextAmplitudeCoefficient (?E (nA - 1))) = ?E (Suc (nA - 1))"
    by (simp add: samples_Suc getNextAmplitudeCoefficient_def Let_def del: samples.simps(2))
  then have p5: "eg_phase (snd (getNextAmplitudeCoefficient (?E (nA - 1)))) = DECAY"
    unfolding pre using B(1) by simp
  have p6: "eg_phase (?E k) = DECAY \<and> ?c k \<le> ?c (k - 1) \<and> eg_sustainLevel e \<le> ?c k"
    if "nA \<le> k \<and> k < nA + nD" for k
  proof -
    from that nA have "Suc (k - 1) = k" by simp
    then have "?c (k - 1) = eg_amplitudeCoefficient (?E k)" using c [of "k - 1"] by simp
    then show ?thesis using C [OF that] c [of k] by simp
  qed
  have p7: "?c (nA + nD - 1) = eg_sustainLevel e" unfolding c pre using S [of "nA + nD"] by simp
  have p8: "\<forall>k\<ge>nA + nD. eg_phase (?E k) = SUSTAIN \<and> ?c k = eg_sustainLevel e"
  proof (intro allI impI)
    fix k assume k: "nA + nD \<le> k"
    then have "nA + nD \<le> Suc k" by simp
    from S [OF k] S [OF this] show "eg_phase (?E k) = SUSTAIN \<and> ?c k = eg_sustainLevel e"
      unfolding c by (simp del: samples.simps(2))
  qed
  have p6': "\<forall>k. nA \<le> k \<and> k < nA + nD \<longrightarrow>
      eg_phase (?E k) = DECAY \<and> ?c k \<le> ?c (k - 1) \<and> eg_sustainLevel e \<le> ?c k"
    using p6 by blast
  show ?thesis
    by (intro exI [of _ nA] exI [of _ nD] conjI) (rule nA nD p1 p2 p3 p4 p5 p6' p7 p8)+
qed

theorem attack_decay_sustain_returned_witness:
  "0 < eg_SAMPLE_INTERVAL (newEnvelopeGenerator (1/4) 1 1 (1/2))
   \<and> 0 < eg_attackTime (newEnvelopeGenerator (1/4) 1 1 (1/2))
   \<and> 0 < eg_decayTime (newEnvelopeGenerator (1/4) 1 1 (1/2))
   \<and> 0 \<le> eg_sustainLevel (newEnvelopeGenerator (1/4) 1 1 (1/2))
   \<and> eg_sustainLevel (newEnvelopeGenerator (1/4) 1 1 (1/2)) \<le> 1
   \<and> (\<exists>nA nD. 0 < nA \<and> 0 < nD
     \<and> fst (getNextAmplitudeCoefficient
              (samples (nA - 1) (startAttack (newEnvelopeGenerator (1/4) 1 1 (1/2))))) = 1
     \<and> eg_phase (snd (getNextAmplitudeCoefficient
              (samples (nA - 1) (startAttack (newEnvelopeGenerator (1/4) 1 1 (1/2)))))) = DECAY
     \<and> fst (getNextAmplitudeCoefficient
              (samples (nA + nD - 1) (startAttack (newEnvelopeGenerator (1/4) 1 1 (1/2)))))
           = eg_sustainLevel (newEnvelopeGenerator (1/4) 1 1 (1/2)))
   \<and> coefficients 4 (startAttack (newEnvelopeGenerator (1/4) 1 1 (1/2))) = [1/4, 1/2, 3/4, 1]
   \<and> eg_phase (samples 4 (startAttack (newEnvelopeGenerator (1/4) 1 1 (1/2)))) = DECAY
   \<and> fst (getNextAmplitudeCoefficient
            (samples 6 (startAttack (newEnvelopeGenerator (1/4) 1 1 (1/2))))) = 5/8
   \<and> fst (getNextAmplitudeCoefficient
            (samples 7 (startAttack (newEnvelopeGenerator (1/4) 1 1 (1/2))))) = 1/2
   \<and> eg_phase (samples 8 (startAttack (newEnvelopeGenerator (1/4) 1 1 (1/2)))) = SUSTAIN
   \<and> fst (getNextAmplitudeCoefficient
            (samples 8 (startAttack (newEnvelopeGenerator (1/4) 1 1 (1/2))))) = 1/2"
proof -
  have h: "0 < eg_SAMPLE_INTERVAL (newEnvelopeGenerator (1/4) 1 1 (1/2))"
    "0 < eg_attackTime (newEnvelopeGenerator (1/4) 1 1 (1/2))"
    "0 < eg_decayTime (newEnvelopeGenerator (1/4) 1 1 (1/2))"
    "0 \<le> eg_sustainLevel (newEnvelopeGenerator (1/4) 1 1 (1/2))"
    "eg_sustainLevel (newEnvelopeGenerator (1/4) 1 1 (1/2)) \<le> 1"
    by (simp_all add: newEnvelopeGenerator_def)
  have v: "coefficients 4 (startAttack (newEnvelopeGenerator (1/4) 1 1 (1/2))) = [1/4, 1/2, 3/4, 1]"
    "eg_phase (samples 4 (startAttack (newEnvelopeGenerator (1/4) 1 1 (1/2)))) = DECAY"
    "fst (getNextAmplitudeCoefficient
            (samples 6 (startAttack (newEnvelopeGenerator (1/4) 1 1 (1/2))))) = 5/8"
    "fst (getNextAmplitudeCoefficient
            (samples 7 (startAttack (newEnvelopeGenerator (1/4) 1 1 (1/2))))) = 1/2"
    "eg_phase (samples 8 (startAttack (newEnvelopeGenerator (1/4) 1 1 (1/2)))) = SUSTAIN"
    "fst (getNextAmplitudeCoefficient
            (samples 8 (startAttack (newEnvelopeGenerator (1/4) 1 1 (1/2))))) = 1/2"
    by (simp_all add: envelope_eval eval_nat_numeral)
  from attack_decay_sustain_returned [OF h] obtain nA nD where
    "0 < nA" "0 < nD"
    "fst (getNextAmplitudeCoefficient
              (samples (nA - 1) (startAttack (newEnvelopeGenerator (1/4) 1 1 (1/2))))) = 1"
    "eg_phase (snd (getNextAmplitudeCoefficient
              (samples (nA - 1) (startAttack (newEnvelopeGenerator (1/4) 1 1 (1/2)))))) = DECAY"
    "fst (getNextAmplitudeCoefficient
              (samples (nA + nD - 1) (startAttack (newEnvelopeGenerator (1/4) 1 1 (1/2)))))
           = eg_sustainLevel (newEnvelopeGenerator (1/4) 1 1 (1/2))"
    by blast
  then have e: "\<exists>nA nD. 0 < nA \<and> 0 < nD
     \<and> fst (getNextAmplitudeCoefficient
              (samples (nA - 1) (startAttack (newEnvelopeGenerator (1/4) 1 1 (1/2))))) = 1
     \<and> eg_phase (snd (getNextAmplitudeCoefficient
              (samples (nA - 1) (startAttack (newEnvelopeGenerator (1/4) 1 1 (1/2)))))) = DECAY
     \<and> fst (getNextAmplitudeCoefficient
              (samples (nA + nD - 1) (startAttack (newEnvelopeGenerator (1/4) 1 1 (1/2)))))
           = eg_sustainLevel (newEnvelopeGenerator (1/4) 1 1 (1/2))"
    by blast
  show ?thesis by (intro conjI) (rule h v e)+
qed

section \<open>Oscillator: frequency of a note\<close>

lemmas oscillator_constants =
  BASE_FREQUENCY_def MAJOR_SIXTH_FREQUENCY_RATIO_def THREE_OCTAVE_FREQUENCY_RATIO_def
  NOTE_OFFSET_def

lemma getGlideFrequency_settled:
  assumes "\<not> osc_isGlideOn osc \<or> osc_currentGlidePitch osc = None
           \<or> osc_currentGlidePitch osc = Some target"
  shows "fst (getGlideFrequency target osc) = target"
  using assms by (auto simp: getGlideFrequency_def split: option.splits)

lemma getGlideFrequency_keeps [simp]:
  "osc_isFrequencyModulationOn (snd (getGlideFrequency target osc)) = osc_isFrequencyModulationOn osc"
  by (simp add: getGlideFrequency_def Let_def split: option.splits)

lemma getModulationFrequency_off:
  "\<not> osc_isFrequencyModulationOn osc \<Longrightarrow>
     getModulationFrequency osc baseFrequency modulatorSignal index = baseFrequency"
  by (simp add: getModulationFrequency_def split: option.splits)

lemma getPitchBend_zero: "osc_pitchBend osc = 0 \<Longrightarrow> getPitchBend osc = 1"
  by (simp add: getPitchBend_def Let_def)

text \<open>
  C3, as stated, fails.  The oscillator as constructed has active note 0; with range
  multiplier 1, pitch bend 0, keyboard pitch tracking on, frequency modulation off and
  no glide, the frequency it hands to \<open>advancedPhase_\<close> is
  \<open>55 * 2 powr (- 4 / 12)\<close>, about 43.65 Hz, and not 55 Hz.
\<close>

theorem note_zero_is_not_55_hertz:
  "fst (sampleFrequency
         (getInstantaneousFrequency
            (newOscillator 44100 1 SQUARE 1 0 True False False 0 False 0 0 0 1)
            (osc_activeNote (newOscillator 44100 1 SQUARE 1 0 True False False 0 False 0 0 0 1)))
         (getPitchBend (newOscillator 44100 1 SQUARE 1 0 True False False 0 False 0 0 0 1))
         None 0
         (newOscillator 44100 1 SQUARE 1 0 True False False 0 False 0 0 0 1))
   \<noteq> 55
   \<and> osc_activeNote (newOscillator 44100 1 SQUARE 1 0 True False False 0 False 0 0 0 1) = 0
   \<and> osc_range (newOscillator 44100 1 SQUARE 1 0 True False False 0 False 0 0 0 1) = 1
   \<and> osc_pitchBend (newOscillator 44100 1 SQUARE 1 0 True False False 0 False 0 0 0 1) = 0"
  by (simp add: sampleFrequency_def getGlideFrequency_def getModulationFrequency_def
        getInstantaneousFrequency_def getPitchBend_def newOscillator_def oscillator_constants)

text \<open>
  C3, amended.  For an oscillator with range multiplier 1, pitch bend 0, keyboard
  pitch tracking on, frequency modulation off and glide settled (glide off, no pitch
  played yet, or the current glide pitch at the target), the frequency generated for
  a sample is \<open>55 * 2 powr ((activeNote - 4) / 12)\<close> Hz: the note offset of - 4
  puts the low A of 55 Hz on note 4, and note 0 sounds \<open>55 * 2 powr (- 1 / 3)\<close> Hz,
  which is less than 55.
\<close>

theorem frequency_of_active_note:
  assumes "osc_range osc = 1" and "osc_pitchBend osc = 0"
    and "osc_isAcceptingKeyboardPitch osc" and "\<not> osc_isFrequencyModulationOn osc"
    and "\<not> osc_isGlideOn osc \<or> osc_currentGlidePitch osc = None
         \<or> osc_currentGlidePitch osc =
             Some (getInstantaneousFrequency osc (osc_activeNote osc))"
  shows "fst (sampleFrequency (getInstantaneousFrequency osc (osc_activeNote osc))
               (getPitchBend osc) modulatorSignal i osc)
           = 55 * 2 powr ((osc_activeNote osc - 4) / 12)
         \<and> (osc_activeNote osc = 0 \<longrightarrow>
              fst (sampleFrequency (getInstantaneousFrequency osc (osc_activeNote osc))
                    (getPitchBend osc) modulatorSignal i osc) = 55 * 2 powr (- (1 / 3))
              \<and> fst (sampleFrequency (getInstantaneousFrequency osc (osc_activeNote osc))
                    (getPitchBend osc) modulatorSignal i osc) < 55)
         \<and> (osc_activeNote osc = 4 \<longrightarrow>
              fst (sampleFrequency (getInstantaneousFrequency osc (osc_activeNote osc))
                    (getPitchBend osc) modulatorSignal i osc) = 55)"
proof -
  define F where "F = fst (sampleFrequency (getInstantaneousFrequency osc (osc_activeNote osc))
               (getPitchBend osc) modulatorSignal i osc)"
  have "F = getInstantaneousFrequency osc (osc_activeNote osc)"
    unfolding F_def
    using assms(2,4) getGlideFrequency_settled [OF assms(5)]
    by (simp add: sampleFrequency_def split_beta getModulationFrequency_off getPitchBend_zero)
  also have "\<dots> = 55 * 2 powr ((osc_activeNote osc - 4) / 12)"
    using assms(1,3) by (simp add: getInstantaneousFrequency_def oscillator_constants)
  finally have eq: "F = 55 * 2 powr ((osc_activeNote osc - 4) / 12)" .
  have "(2::real) powr (- (1 / 3)) < 2 powr 0" by (rule powr_less_mono) simp_all
  then have lt: "(2::real) powr (- (1 / 3)) < 1" by simp
  have "F = 55 * 2 powr ((osc_activeNote osc - 4) / 12)
         \<and> (osc_activeNote osc = 0 \<longrightarrow> F = 55 * 2 powr (- (1 / 3)) \<and> F < 55)
         \<and> (osc_activeNote osc = 4 \<longrightarrow> F = 55)"
    using eq lt by auto
  then show ?thesis unfolding F_def .
qed

theorem frequency_of_active_note_witness:
  "osc_range (setActiveNote 4 (newOscillator 44100 1 SQUARE 1 0 True False False 0 True 1 0 0 1)) = 1
   \<and> osc_pitchBend (setActiveNote 4 (newOscillator 44100 1 SQUARE 1 0 True False False 0 True 1 0 0 1)) = 0
   \<and> osc_isAcceptingKeyboardPitch
        (setActiveNote 4 (newOscillator 44100 1 SQUARE 1 0 True False False 0 True 1 0 0 1))
   \<and> \<not> osc_isFrequencyModulationOn
        (setActiveNote 4 (newOscillator 44100 1 SQUARE 1 0 True False False 0 True 1 0 0 1))
   \<and> osc_currentGlidePitch
        (setActiveNote 4 (newOscillator 44100 1 SQUARE 1 0 True False False 0 True 1 0 0 1)) = None
   \<and> osc_activeNote
        (setActiveNote 4 (newOscillator 44100 1 SQUARE 1 0 True False False 0 True 1 0 0 1)) = 4
   \<and> fst (sampleFrequency
         (getInstantaneousFrequency
            (setActiveNote 4 (newOscillator 44100 1 SQUARE 1 0 True False False 0 True 1 0 0 1))
            (osc_activeNote
               (setActiveNote 4 (newOscillator 44100 1 SQUARE 1 0 True False False 0 True 1 0 0 1))))
         (getPitchBend
            (setActiveNote 4 (newOscillator 44100 1 SQUARE 1 0 True False False 0 True 1 0 0 1)))
         None 0
         (setActiveNote 4 (newOscillator 44100 1 SQUARE 1 0 True False False 0 True 1 0 0 1)))
       = 55"
  using frequency_of_active_note
    [where osc = "setActiveNote 4 (newOscillator 44100 1 SQUARE 1 0 True False False 0 True 1 0 0 1)"
       and modulatorSignal = None and i = 0]
  by (simp add: setActiveNote_def newOscillator_def)

section \<open>Oscillator: phase accumulator\<close>

lemma advancedPhase_bounds:
  assumes f: "0 < f" and T0: "0 \<le> osc_SAMPLE_INTERVAL osc"
    and TL: "osc_SAMPLE_INTERVAL osc \<le> 2 / f"
    and p0: "0 \<le> osc_phase osc" and p1: "osc_phase osc \<le> 2 / f + osc_SAMPLE_INTERVAL osc"
  shows "0 \<le> fst (advancedPhase f osc)" and "fst (advancedPhase f osc) \<le> 1"
    and "0 \<le> osc_phase (snd (advancedPhase f osc))"
    and "osc_phase (snd (advancedPhase f osc)) \<le> 2 / f + osc_SAMPLE_INTERVAL osc"
    and "osc_SAMPLE_INTERVAL (snd (advancedPhase f osc)) = osc_SAMPLE_INTERVAL osc"
proof -
  define p where "p = (if osc_phase osc > 2 / f then osc_phase osc - 2 / f else osc_phase osc)"
  have a: "fst (advancedPhase f osc) = p * f / 2"
    and b: "osc_phase (snd (advancedPhase f osc)) = p + osc_SAMPLE_INTERVAL osc"
    and c: "osc_SAMPLE_INTERVAL (snd (advancedPhase f osc)) = osc_SAMPLE_INTERVAL osc"
    by (simp_all add: advancedPhase_def Let_def p_def)
  have lo: "0 \<le> p" using p0 by (simp add: p_def)
  have hi: "p \<le> 2 / f" using p1 TL by (simp add: p_def)
  then have "p * f \<le> 2" using f by (simp add: pos_le_divide_eq)
  then show "fst (advancedPhase f osc) \<le> 1" by (simp add: a)
  show "0 \<le> fst (advancedPhase f osc)" using lo f by (simp add: a)
  show "0 \<le> osc_phase (snd (advancedPhase f osc))" using lo T0 by (simp add: b)
  show "osc_phase (snd (advancedPhase f osc)) \<le> 2 / f + osc_SAMPLE_INTERVAL osc"
    using hi by (simp add: b)
  show "osc_SAMPLE_INTERVAL (snd (advancedPhase f osc)) = osc_SAMPLE_INTERVAL osc" by (rule c)
qed

text \<open>
  C7, as stated, fails.  \<open>advancedPhase_\<close> subtracts the cycle length once, and
  only from a phase greater than it.  At 4 samples a second and 2 Hz the cycle length
  is 1 second: after four calls the accumulator is 1, not less than the cycle length,
  and the fifth call returns the progress 1, outside [0, 1).
\<close>

theorem progress_wraps_to_one:
  "fst (advancedPhases [2, 2, 2, 2, 2]
         (newOscillator 4 1 SQUARE 1 0 True False False 0 False 0 0 0 1))
     = [0, 1/4, 1/2, 3/4, 1]
   \<and> osc_phase (snd (advancedPhases [2, 2, 2, 2]
         (newOscillator 4 1 SQUARE 1 0 True False False 0 False 0 0 0 1))) = 2 / 2"
  by (simp add: advancedPhase_def newOscillator_def Let_def)

text \<open>
  C7, amended.  At a constant positive frequency \<open>f\<close> whose cycle length \<open>2 / f\<close>
  is at least the sample interval, starting from an accumulator between 0 and one cycle
  length plus one sample interval (the initial 0 in particular), every progress value
  \<open>advancedPhase_\<close> returns is in the closed interval [0, 1], which is the range
  its documentation names, and the accumulator stays between 0 and one cycle length
  plus one sample interval.
\<close>

theorem progress_in_closed_unit_interval:
  assumes "0 < f" and "0 \<le> osc_SAMPLE_INTERVAL osc" and "osc_SAMPLE_INTERVAL osc \<le> 2 / f"
    and "0 \<le> osc_phase osc" and "osc_phase osc \<le> 2 / f + osc_SAMPLE_INTERVAL osc"
  shows "(\<forall>p \<in> set (fst (advancedPhases (replicate n f) osc)). 0 \<le> p \<and> p \<le> 1)
         \<and> 0 \<le> osc_phase (snd (advancedPhases (replicate n f) osc))
         \<and> osc_phase (snd (advancedPhases (replicate n f) osc)) \<le> 2 / f + osc_SAMPLE_INTERVAL osc"
  using assms(2-)
proof (induction n arbitrary: osc)
  case 0
  then show ?case by simp
next
  case (Suc n)
  note step = advancedPhase_bounds [OF assms(1) Suc.prems]
  have "(\<forall>p \<in> set (fst (advancedPhases (replicate n f) (snd (advancedPhase f osc)))). 0 \<le> p \<and> p \<le> 1)
         \<and> 0 \<le> osc_phase (snd (advancedPhases (replicate n f) (snd (advancedPhase f osc))))
         \<and> osc_phase (snd (advancedPhases (replicate n f) (snd (advancedPhase f osc))))
             \<le> 2 / f + osc_SAMPLE_INTERVAL (snd (advancedPhase f osc))"
    by (rule Suc.IH) (use step Suc.prems in simp_all)
  then show ?case using step by (simp add: split_beta)
qed

theorem progress_in_closed_unit_interval_witness:
  "(0::real) < 2
   \<and> 0 \<le> osc_SAMPLE_INTERVAL (newOscillator 4 1 SQUARE 1 0 True False False 0 False 0 0 0 1)
   \<and> osc_SAMPLE_INTERVAL (newOscillator 4 1 SQUARE 1 0 True False False 0 False 0 0 0 1) \<le> 2 / 2
   \<and> 0 \<le> osc_phase (newOscillator 4 1 SQUARE 1 0 True False False 0 False 0 0 0 1)
   \<and> osc_phase (newOscillator 4 1 SQUARE 1 0 True False False 0 False 0 0 0 1)
       \<le> 2 / 2 + osc_SAMPLE_INTERVAL (newOscillator 4 1 SQUARE 1 0 True False False 0 False 0 0 0 1)
   \<and> 0 \<le> osc_phase (snd (advancedPhases (replicate 6 2)
                        (newOscillator 4 1 SQUARE 1 0 True False False 0 False 0 0 0 1)))
   \<and> osc_phase (snd (advancedPhases (replicate 6 2)
                        (newOscillator 4 1 SQUARE 1 0 True False False 0 False 0 0 0 1)))
       \<le> 2 / 2 + osc_SAMPLE_INTERVAL (newOscillator 4 1 SQUARE 1 0 True False False 0 False 0 0 0 1)
   \<and> fst (advancedPhases (replicate 6 2)
            (newOscillator 4 1 SQUARE 1 0 True False False 0 False 0 0 0 1))
       = [0, 1/4, 1/2, 3/4, 1, 1/4]"
proof -
  have h: "(0::real) < 2"
    "0 \<le> osc_SAMPLE_INTERVAL (newOscillator 4 1 SQUARE 1 0 True False False 0 False 0 0 0 1)"
    "osc_SAMPLE_INTERVAL (newOscillator 4 1 SQUARE 1 0 True False False 0 False 0 0 0 1) \<le> 2 / 2"
    "0 \<le> osc_phase (newOscillator 4 1 SQUARE 1 0 True False False 0 False 0 0 0 1)"
    "osc_phase (newOscillator 4 1 SQUARE 1 0 True False False 0 False 0 0 0 1)
       \<le> 2 / 2 + osc_SAMPLE_INTERVAL (newOscillator 4 1 SQUARE 1 0 True False False 0 False 0 0 0 1)"
    by (simp_all add: newOscillator_def)
  have v: "fst (advancedPhases (replicate 6 2)
            (newOscillator 4 1 SQUARE 1 0 True False False 0 False 0 0 0 1))
       = [0, 1/4, 1/2, 3/4, 1, 1/4]"
    by (simp add: advancedPhase_def newOscillator_def Let_def eval_nat_numeral)
  show ?thesis
    using h v progress_in_closed_unit_interval [OF h, of 6] by (intro conjI) simp_all
qed

text \<open>
  What a single subtraction leaves when the frequency rises: after three samples at
  1 Hz the accumulator is 0.75 seconds, and at 8 Hz, with a cycle length of 0.25
  seconds, the progress returned is 2.
\<close>

lemma progress_after_frequency_rise:
  "fst (advancedPhases [1, 1, 1, 8]
         (newOscillator 4 1 SQUARE 1 0 True False False 0 False 0 0 0 1))
     = [0, 1/8, 1/4, 2]"
  by (simp add: advancedPhase_def newOscillator_def Let_def)

section \<open>Oscillator: glide\<close>



lemma getGlideFrequency_By: "getGlideFrequency target osc = getGlideFrequencyBy (\<le>) target osc"
  by (simp add: getGlideFrequency_def getGlideFrequencyBy_def)

lemma glideFrequencies_By: "glideFrequencies targets osc = glideFrequenciesBy (\<le>) targets osc"
  by (induction targets arbitrary: osc) (simp_all add: getGlideFrequency_By)










section \<open>Oscillator: the output buffer\<close>

lemma oscillatorAfter_Suc:
  "oscillatorAfter tf pb ms (Suc k) osc =
     snd (nextAudioLevel tf pb ms k (oscillatorAfter tf pb ms k osc))"
  by (simp add: oscillatorAfter_def)

lemma fold_fillSample:
  "fold (fillSample tf pb ms mode dv) [0..<k] (osc, buffer) =
     (oscillatorAfter tf pb ms k osc,
      fold (\<lambda>i b. writeSample mode dv i (audioLevelAt tf pb ms i osc) b) [0..<k] buffer)"
proof (induction k)
  case 0
  show ?case by (simp add: oscillatorAfter_def)
next
  case (Suc k)
  then show ?case
    by (simp add: oscillatorAfter_Suc fillSample_def audioLevelAt_def split_beta)
qed

lemma writeSample_channel0:
  "channel0 (writeSample mode dv i a b) =
     (channel0 b)[i := (case mode of CLOBBER \<Rightarrow> a
                        | ADD \<Rightarrow> channel0 b ! i + a
                        | MIX \<Rightarrow> (channel0 b ! i + a) / dv)]"
  by (cases mode) (simp_all add: writeSample_def Let_def)

lemma writeSample_channel1:
  "channel1 (writeSample mode dv i a b) =
     (if mode = MIX
      then map_option (\<lambda>left. left[i := channel0 (writeSample mode dv i a b) ! i]) (channel1 b)
      else channel1 b)"
  by (cases mode) (simp_all add: writeSample_def Let_def)

lemma writes_channel0:
  fixes lv :: "nat \<Rightarrow> real" and mode :: FillMode and dv :: real
  defines "W \<equiv> \<lambda>k b. fold (\<lambda>i b. writeSample mode dv i (lv i) b) [0..<k] b"
  shows "length (channel0 (W k b)) = length (channel0 b)"
    and "i < length (channel0 b) \<Longrightarrow>
         channel0 (W k b) ! i =
           (if i < k then channel0 (writeSample mode dv i (lv i) b) ! i else channel0 b ! i)"
proof -
  have both: "length (channel0 (W k b)) = length (channel0 b)
    \<and> (\<forall>i < length (channel0 b). channel0 (W k b) ! i =
           (if i < k then channel0 (writeSample mode dv i (lv i) b) ! i else channel0 b ! i))"
  proof (induction k)
    case 0
    show ?case by (simp add: W_def)
  next
    case (Suc k)
    have step: "W (Suc k) b = writeSample mode dv k (lv k) (W k b)" by (simp add: W_def)
    from Suc have len: "length (channel0 (W k b)) = length (channel0 b)"
      and old: "\<And>i. i < length (channel0 b) \<Longrightarrow> channel0 (W k b) ! i =
           (if i < k then channel0 (writeSample mode dv i (lv i) b) ! i else channel0 b ! i)"
      by simp_all
    show ?case
    proof (intro conjI allI impI)
      show "length (channel0 (W (Suc k) b)) = length (channel0 b)"
        by (simp add: step writeSample_channel0 len)
    next
      fix i assume i: "i < length (channel0 b)"
      show "channel0 (W (Suc k) b) ! i =
           (if i < Suc k then channel0 (writeSample mode dv i (lv i) b) ! i else channel0 b ! i)"
      proof (cases "i = k")
        case True
        then show ?thesis
          using i old [of k] len
          by (simp add: step writeSample_channel0 split: FillMode.splits)
      next
        case False
        then show ?thesis
          using i old [of i] by (auto simp: step writeSample_channel0 [of _ _ k])
      qed
    qed
  qed
  from both show "length (channel0 (W k b)) = length (channel0 b)" by simp
  from both show "i < length (channel0 b) \<Longrightarrow>
         channel0 (W k b) ! i =
           (if i < k then channel0 (writeSample mode dv i (lv i) b) ! i else channel0 b ! i)"
    by simp
qed

lemma writes_channel1_kept:
  "mode \<noteq> MIX \<Longrightarrow>
     channel1 (fold (\<lambda>i b. writeSample mode dv i (lv i) b) [0..<k] b) = channel1 b"
  by (induction k) (simp_all add: writeSample_channel1)

lemma writes_channel1_mix:
  fixes lv :: "nat \<Rightarrow> real" and dv :: real
  defines "W \<equiv> \<lambda>k b. fold (\<lambda>i b. writeSample MIX dv i (lv i) b) [0..<k] b"
  assumes k: "k \<le> length (channel0 b)"
  shows "case channel1 b of
           None \<Rightarrow> channel1 (W k b) = None
         | Some left \<Rightarrow>
             (\<exists>left'. channel1 (W k b) = Some left' \<and> length left' = length left
                \<and> (\<forall>i < length left.
                      left' ! i = (if i < k then channel0 (W k b) ! i else left ! i)))"
proof (cases "channel1 b")
  case None
  have "channel1 (W k b) = None"
    by (induction k) (simp_all add: W_def writeSample_channel1 None)
  then show ?thesis by (simp add: None)
next
  case (Some left)
  have "\<exists>left'. channel1 (W k b) = Some left' \<and> length left' = length left
          \<and> (\<forall>i < length left. left' ! i = (if i < k then channel0 (W k b) ! i else left ! i))"
    using k
  proof (induction k)
    case 0
    show ?case by (simp add: W_def Some)
  next
    case (Suc k)
    then obtain left' where l: "channel1 (W k b) = Some left'" "length left' = length left"
      and old: "\<And>i. i < length left \<Longrightarrow>
                  left' ! i = (if i < k then channel0 (W k b) ! i else left ! i)"
      by auto
    have step: "W (Suc k) b = writeSample MIX dv k (lv k) (W k b)" by (simp add: W_def)
    let ?left = "left'[k := channel0 (W (Suc k) b) ! k]"
    have c1: "channel1 (W (Suc k) b) = Some ?left"
      unfolding step by (simp add: writeSample_channel1 l)
    have same: "channel0 (W (Suc k) b) ! i = channel0 (W k b) ! i" if "i < k" for i
    proof -
      have "i < length (channel0 b)" using that Suc.prems by simp
      then show ?thesis
        using that writes_channel0(2) [of i b MIX dv lv "Suc k"]
          writes_channel0(2) [of i b MIX dv lv k]
        by (simp add: W_def)
    qed
    have "?left ! i = (if i < Suc k then channel0 (W (Suc k) b) ! i else left ! i)"
      if "i < length left" for i
    proof (cases "i = k")
      case True
      then show ?thesis using that l by simp
    next
      case False
      then show ?thesis using that old [of i] same [of i] by auto
    qed
    with c1 l show ?case by simp
  qed
  then show ?thesis by (simp add: Some)
qed

text \<open>
  C10.  A call of \<open>fillAudioBuffer\<close> keeps the length of channel 0 and writes every
  sample of it from the level computed for that sample: the level itself with
  CLOBBER, the old sample plus the level with ADD, and that sum divided by the mix
  divisor with MIX (stated for a divisor that is not zero).  With CLOBBER and ADD channel 1 is left as it was.  With MIX,
  channel 1, when the buffer has one, keeps its length and has at every index that is
  also an index of channel 0 the sample channel 0 has there after the call.
\<close>

theorem fillAudioBuffer_channels:
  "length (channel0 (snd (fillAudioBuffer buffer modulatorSignal fillMode opt_mixDivisor osc)))
     = length (channel0 buffer)
   \<and> (fillMode = CLOBBER \<longrightarrow>
        channel0 (snd (fillAudioBuffer buffer modulatorSignal fillMode opt_mixDivisor osc))
          = audioLevels buffer modulatorSignal osc)
   \<and> (fillMode = ADD \<longrightarrow>
        channel0 (snd (fillAudioBuffer buffer modulatorSignal fillMode opt_mixDivisor osc))
          = map2 (\<lambda>x a. x + a) (channel0 buffer) (audioLevels buffer modulatorSignal osc))
   \<and> (fillMode = MIX \<longrightarrow> opt_mixDivisor \<noteq> 0 \<longrightarrow>
        channel0 (snd (fillAudioBuffer buffer modulatorSignal fillMode opt_mixDivisor osc))
          = map2 (\<lambda>x a. (x + a) / opt_mixDivisor) (channel0 buffer)
              (audioLevels buffer modulatorSignal osc))
   \<and> (fillMode \<noteq> MIX \<longrightarrow>
        channel1 (snd (fillAudioBuffer buffer modulatorSignal fillMode opt_mixDivisor osc))
          = channel1 buffer)
   \<and> (fillMode = MIX \<longrightarrow>
        (case channel1 buffer of
           None \<Rightarrow>
             channel1 (snd (fillAudioBuffer buffer modulatorSignal fillMode opt_mixDivisor osc))
               = None
         | Some left \<Rightarrow>
             (\<exists>left'.
                channel1 (snd (fillAudioBuffer buffer modulatorSignal fillMode opt_mixDivisor osc))
                  = Some left'
                \<and> length left' = length left
                \<and> (\<forall>i < length left.
                      left' ! i =
                        (if i < length (channel0 buffer)
                         then channel0 (snd (fillAudioBuffer buffer modulatorSignal fillMode
                                               opt_mixDivisor osc)) ! i
                         else left ! i)))))"
proof -
  define n where "n = length (channel0 buffer)"
  define osc0 where "osc0 = (if osc_IS_MODULATOR osc \<and> osc_modulatorSignal osc = None
                  then osc\<lparr>osc_modulatorSignal := Some (replicate n 0)\<rparr>
                  else osc)"
  define tf where "tf = getInstantaneousFrequency osc0 (osc_activeNote osc0)"
  define pb where "pb = getPitchBend osc0"
  define lv where "lv = (\<lambda>i. audioLevelAt tf pb modulatorSignal i osc0)"
  define B where "B = fold (\<lambda>i b. writeSample fillMode opt_mixDivisor i (lv i) b) [0..<n] buffer"
  have res: "snd (fillAudioBuffer buffer modulatorSignal fillMode opt_mixDivisor osc) = B"
    by (simp add: fillAudioBuffer_def Let_def fold_fillSample B_def lv_def pb_def tf_def
          osc0_def n_def)
  have levels: "audioLevels buffer modulatorSignal osc = map lv [0..<n]"
    by (simp add: audioLevels_def Let_def lv_def pb_def tf_def osc0_def n_def)
  have len: "length (channel0 B) = n"
    unfolding B_def n_def by (rule writes_channel0(1))
  have nth: "channel0 B ! i = channel0 (writeSample fillMode opt_mixDivisor i (lv i) buffer) ! i"
    if "i < n" for i
    using that writes_channel0(2) [of i buffer fillMode opt_mixDivisor lv n]
    by (simp add: B_def n_def)
  have clobber: "channel0 B = map lv [0..<n]" if "fillMode = CLOBBER"
    by (rule nth_equalityI) (use that len nth in \<open>simp_all add: writeSample_channel0 n_def\<close>)
  have add: "channel0 B = map2 (\<lambda>x a. x + a) (channel0 buffer) (map lv [0..<n])"
    if "fillMode = ADD"
    by (rule nth_equalityI) (use that len nth in \<open>simp_all add: writeSample_channel0 n_def\<close>)
  have mix: "channel0 B = map2 (\<lambda>x a. (x + a) / opt_mixDivisor) (channel0 buffer) (map lv [0..<n])"
    if "fillMode = MIX"
    by (rule nth_equalityI) (use that len nth in \<open>simp_all add: writeSample_channel0 n_def\<close>)
  have kept: "channel1 B = channel1 buffer" if "fillMode \<noteq> MIX"
    unfolding B_def by (rule writes_channel1_kept [OF that])
  have left: "case channel1 buffer of
           None \<Rightarrow> channel1 B = None
         | Some left \<Rightarrow>
             (\<exists>left'. channel1 B = Some left' \<and> length left' = length left
                \<and> (\<forall>i < length left.
                      left' ! i = (if i < n then channel0 B ! i else left ! i)))"
    if "fillMode = MIX"
    unfolding B_def that n_def by (rule writes_channel1_mix) simp
  note facts = len [unfolded n_def] clobber [unfolded n_def] add [unfolded n_def]
    mix [unfolded n_def] kept left [unfolded n_def]
  show ?thesis
    unfolding res levels n_def by (intro conjI impI) (rule facts; assumption?)+
qed

lemmas fill_eval =
  fillAudioBuffer_def fillSample_def nextAudioLevel_def writeSample_def
  sampleFrequency_def getGlideFrequency_def getModulationFrequency_def advancedPhase_def
  getInstantaneousFrequency_def getPitchBend_def setActiveNote_def newOscillator_def
  audioLevels_def audioLevelAt_def oscillatorAfter_def

theorem fillAudioBuffer_channels_witness:
  "MIX = MIX \<and> CLOBBER \<noteq> MIX \<and> ADD \<noteq> MIX
   \<and> audioLevels \<lparr>channel0 = [1, 3], channel1 = Some [9, 9]\<rparr> None
        ((setActiveNote 4 (newOscillator 4 1 SQUARE 1 0 True False False 0 False 0 0 0 1))
           \<lparr>osc_envelopeGenerator := startAttack (newEnvelopeGenerator (1/4) 0 0 1)\<rparr>)
       = [1, - 1]
   \<and> snd (fillAudioBuffer \<lparr>channel0 = [1, 3], channel1 = Some [9, 9]\<rparr> None MIX 2
        ((setActiveNote 4 (newOscillator 4 1 SQUARE 1 0 True False False 0 False 0 0 0 1))
           \<lparr>osc_envelopeGenerator := startAttack (newEnvelopeGenerator (1/4) 0 0 1)\<rparr>))
       = \<lparr>channel0 = [1, 1], channel1 = Some [1, 1]\<rparr>
   \<and> snd (fillAudioBuffer \<lparr>channel0 = [1, 3], channel1 = Some [9, 9]\<rparr> None ADD 2
        ((setActiveNote 4 (newOscillator 4 1 SQUARE 1 0 True False False 0 False 0 0 0 1))
           \<lparr>osc_envelopeGenerator := startAttack (newEnvelopeGenerator (1/4) 0 0 1)\<rparr>))
       = \<lparr>channel0 = [2, 2], channel1 = Some [9, 9]\<rparr>
   \<and> snd (fillAudioBuffer \<lparr>channel0 = [1, 3], channel1 = Some [9, 9]\<rparr> None CLOBBER 2
        ((setActiveNote 4 (newOscillator 4 1 SQUARE 1 0 True False False 0 False 0 0 0 1))
           \<lparr>osc_envelopeGenerator := startAttack (newEnvelopeGenerator (1/4) 0 0 1)\<rparr>))
       = \<lparr>channel0 = [1, - 1], channel1 = Some [9, 9]\<rparr>"
proof -
  let ?b = "\<lparr>channel0 = [1, 3], channel1 = Some [9, 9]\<rparr>"
  let ?osc = "(setActiveNote 4 (newOscillator 4 1 SQUARE 1 0 True False False 0 False 0 0 0 1))
           \<lparr>osc_envelopeGenerator := startAttack (newEnvelopeGenerator (1/4) 0 0 1)\<rparr>"
  have lv: "audioLevels ?b None ?osc = [1, - 1]"
    by (simp add: fill_eval oscillator_constants envelope_eval)
  have len: "length (channel0 ?b) = 2" by simp
  note mix = fillAudioBuffer_channels [where fillMode = MIX and opt_mixDivisor = 2
        and modulatorSignal = None and buffer = ?b and osc = ?osc]
  note add = fillAudioBuffer_channels [where fillMode = ADD and opt_mixDivisor = 2
        and modulatorSignal = None and buffer = ?b and osc = ?osc]
  note clobber = fillAudioBuffer_channels [where fillMode = CLOBBER and opt_mixDivisor = 2
        and modulatorSignal = None and buffer = ?b and osc = ?osc]
  have c: "snd (fillAudioBuffer ?b None CLOBBER 2 ?osc) = \<lparr>channel0 = [1, - 1], channel1 = Some [9, 9]\<rparr>"
    using clobber lv by (cases "snd (fillAudioBuffer ?b None CLOBBER 2 ?osc)") simp
  have a: "snd (fillAudioBuffer ?b None ADD 2 ?osc) = \<lparr>channel0 = [2, 2], channel1 = Some [9, 9]\<rparr>"
    using add lv by (cases "snd (fillAudioBuffer ?b None ADD 2 ?osc)") simp
  from mix lv have m0: "channel0 (snd (fillAudioBuffer ?b None MIX 2 ?osc)) = [1, 1]" by simp
  from mix obtain left' where l: "channel1 (snd (fillAudioBuffer ?b None MIX 2 ?osc)) = Some left'"
    "length left' = 2" "\<forall>i<2. left' ! i = channel0 (snd (fillAudioBuffer ?b None MIX 2 ?osc)) ! i"
    by auto
  have "left' = [1, 1]"
    by (rule nth_equalityI) (use l m0 in \<open>auto simp: less_Suc_eq numeral_2_eq_2\<close>)
  with l m0 have m: "snd (fillAudioBuffer ?b None MIX 2 ?osc) = \<lparr>channel0 = [1, 1], channel1 = Some [1, 1]\<rparr>"
    by (cases "snd (fillAudioBuffer ?b None MIX 2 ?osc)") simp
  show ?thesis using lv c a m by simp
qed

section \<open>Low pass filter: the contour envelope\<close>


end
